theory Spec2Isabelle
  imports Complex_Main "HOL-Library.AList" "HOL-Library.Char_ord" "HOL-Library.List_Lexorder"
begin

section \<open>Data model of the optimization engine\<close>

text \<open>
  The engine of \<^verbatim>\<open>app/core/optimization_engine.py\<close>. Python's \<^verbatim>\<open>datetime\<close> values are
  read as seconds since the epoch and Python's floats as exact rationals, so every
  quotient of the source is the exact quotient here. Strings are compared as Python
  compares them, lexicographically by character code. A Python dictionary is an
  association list in insertion order whose keys are distinct.

  \<open>TrainBase\<close> holds the fields of the request model of that name in
  \<^verbatim>\<open>app/models/schemas.py\<close>; a \<open>Train\<close> adds the id, as \<^verbatim>\<open>schemas.Train\<close> does, and
  has exactly the fields of the engine's own \<^verbatim>\<open>Train\<close> dataclass. The enumerations
  \<^verbatim>\<open>TrainType\<close> and \<^verbatim>\<open>TrainStatus\<close> are kept as their string values. Of the engine's
  state the methods below read and write the trains and the conflicts only; the track
  sections take no part in detection or optimization.
\<close>

type_synonym datetime = rat

datatype py_error = KeyError string | ZeroDivisionError

record TrainBase =
  train_number :: string
  train_type :: string
  priority :: int
  origin :: string
  destination :: string
  scheduled_departure :: datetime
  scheduled_arrival :: datetime
  current_location :: string
  speed :: rat
  length_train :: rat
  weight :: rat
  status :: string

record Train = TrainBase +
  id_train :: string

datatype resolution_option =
  Resolution (action: string) (option_train_id: string) (option_delay_minutes: "rat option")

record Conflict =
  train1_id :: string
  train2_id :: string
  section_id :: string
  conflict_type :: string
  severity :: rat
  resolution_options :: "resolution_option list"

record OptimizationEngine =
  trains :: "(string \<times> Train) list"
  conflicts :: "Conflict list"

definition init_engine :: OptimizationEngine where
  "init_engine = \<lparr>trains = [], conflicts = []\<rparr>"

definition add_train :: "Train \<Rightarrow> OptimizationEngine \<Rightarrow> OptimizationEngine" where
  "add_train train e = e\<lparr>trains := AList.update (id_train train) train (trains e)\<rparr>"

section \<open>Conflict detection\<close>

definition min_headway_of :: "Train \<Rightarrow> Train \<Rightarrow> rat" where
  "min_headway_of train1 train2 =
     max (length_train train1 / speed train1 * 3.6)
         (max (length_train train2 / speed train2 * 3.6) 120)"

definition check_headway_conflict :: "Train \<Rightarrow> Train \<Rightarrow> py_error + Conflict option" where
  "check_headway_conflict train1 train2 =
     (if current_location train1 = current_location train2 then
        if speed train1 = 0 \<or> speed train2 = 0 then Inl ZeroDivisionError
        else
          let min_headway = min_headway_of train1 train2;
              time_diff = \<bar>scheduled_departure train1 - scheduled_departure train2\<bar>
          in if time_diff < min_headway then
               Inr (Some \<lparr>train1_id = id_train train1,
                          train2_id = id_train train2,
                          section_id = current_location train1,
                          conflict_type = ''headway'',
                          severity = 1 - time_diff / min_headway,
                          resolution_options =
                            [Resolution ''delay_train'' (id_train train1) (Some (min_headway / 60)),
                             Resolution ''delay_train'' (id_train train2) (Some (min_headway / 60)),
                             Resolution ''reroute_train'' (id_train train1) None,
                             Resolution ''reroute_train'' (id_train train2) None]\<rparr>)
             else Inr None
      else Inr None)"

definition check_platform_conflict :: "Train \<Rightarrow> Train \<Rightarrow> Conflict option" where
  "check_platform_conflict train1 train2 =
     (if destination train1 = destination train2
         \<and> \<bar>scheduled_arrival train1 - scheduled_arrival train2\<bar> < 300 then
        Some \<lparr>train1_id = id_train train1,
              train2_id = id_train train2,
              section_id = destination train1,
              conflict_type = ''platform'',
              severity = 0.8,
              resolution_options =
                [Resolution ''delay_train'' (id_train train1) (Some 10),
                 Resolution ''delay_train'' (id_train train2) (Some 10),
                 Resolution ''change_platform'' (id_train train1) None,
                 Resolution ''change_platform'' (id_train train2) None]\<rparr>
      else None)"

text \<open>The guarded \<^verbatim>\<open>conflicts.append\<close>: a found conflict is appended, \<^verbatim>\<open>None\<close> is not.\<close>

definition append_if_found :: "Conflict option \<Rightarrow> Conflict list" where
  "append_if_found found = (case found of None \<Rightarrow> [] | Some conflict \<Rightarrow> [conflict])"

text \<open>The body of the inner loop: what one ordered pair of dictionary items appends.\<close>

definition check_pair :: "string \<times> Train \<Rightarrow> string \<times> Train \<Rightarrow> py_error + Conflict list" where
  "check_pair item1 item2 =
     (if fst item1 \<ge> fst item2 then Inr []
      else case check_headway_conflict (snd item1) (snd item2) of
             Inl err \<Rightarrow> Inl err
           | Inr headway_conflict \<Rightarrow>
               Inr (append_if_found headway_conflict
                    @ append_if_found (check_platform_conflict (snd item1) (snd item2))))"

fun inner_loop :: "string \<times> Train \<Rightarrow> (string \<times> Train) list \<Rightarrow> py_error + Conflict list" where
  "inner_loop item1 [] = Inr []"
| "inner_loop item1 (item2 # rest) =
     (case check_pair item1 item2 of
        Inl err \<Rightarrow> Inl err
      | Inr found \<Rightarrow>
          (case inner_loop item1 rest of
             Inl err \<Rightarrow> Inl err
           | Inr later \<Rightarrow> Inr (found @ later)))"

fun outer_loop :: "(string \<times> Train) list \<Rightarrow> (string \<times> Train) list \<Rightarrow> py_error + Conflict list" where
  "outer_loop [] items = Inr []"
| "outer_loop (item1 # rest) items =
     (case inner_loop item1 items of
        Inl err \<Rightarrow> Inl err
      | Inr found \<Rightarrow>
          (case outer_loop rest items of
             Inl err \<Rightarrow> Inl err
           | Inr later \<Rightarrow> Inr (found @ later)))"

text \<open>
  \<^verbatim>\<open>detect_conflicts\<close> returns the list and stores it in the engine; when a headway
  check raises, the exception leaves the method before the assignment.
\<close>

definition detect_conflicts :: "OptimizationEngine \<Rightarrow> py_error + Conflict list \<times> OptimizationEngine" where
  "detect_conflicts e =
     (case outer_loop (trains e) (trains e) of
        Inl err \<Rightarrow> Inl err
      | Inr found \<Rightarrow> Inr (found, e\<lparr>conflicts := found\<rparr>))"

section \<open>Properties of conflict detection: definitions\<close>

text \<open>
  The representation invariant of the engine: the keys of \<^verbatim>\<open>self.trains\<close> are distinct and
  every train is stored under its own id, which is how \<open>add_train\<close> stores it. The
  headway check divides by the speeds, so detection returns only when no speed is zero.
\<close>

definition engine_wf :: "OptimizationEngine \<Rightarrow> bool" where
  "engine_wf e \<longleftrightarrow> distinct (map fst (trains e)) \<and> list_all (\<lambda>item. fst item = id_train (snd item)) (trains e)"

definition speeds_nonzero :: "OptimizationEngine \<Rightarrow> bool" where
  "speeds_nonzero e \<longleftrightarrow> list_all (\<lambda>item. speed (snd item) \<noteq> 0) (trains e)"

text \<open>
  The conflicts of a given type that a list holds for an unordered pair of train ids, and
  what one ordered pair of items contributes when its checks do not raise.
\<close>

definition conflicts_between :: "string \<Rightarrow> string \<Rightarrow> string \<Rightarrow> Conflict list \<Rightarrow> Conflict list" where
  "conflicts_between kind a b cs =
     filter (\<lambda>c. conflict_type c = kind \<and> {train1_id c, train2_id c} = {a, b}) cs"

definition pair_found :: "string \<times> Train \<Rightarrow> string \<times> Train \<Rightarrow> Conflict list" where
  "pair_found item1 item2 = (case check_pair item1 item2 of Inl err \<Rightarrow> [] | Inr found \<Rightarrow> found)"




definition spec_platform_due :: "Train \<Rightarrow> Train \<Rightarrow> bool" where
  "spec_platform_due a b \<longleftrightarrow>
     destination a = destination b \<and> \<bar>scheduled_arrival a - scheduled_arrival b\<bar> < 300"

definition spec_platform_options :: "string \<Rightarrow> string \<Rightarrow> resolution_option set" where
  "spec_platform_options a b =
     {Resolution ''delay_train'' a (Some 10), Resolution ''delay_train'' b (Some 10),
      Resolution ''change_platform'' a None, Resolution ''change_platform'' b None}"

text \<open>
  Two trains leaving Mumbai Central at the same instant, and three trains bound for New
  Delhi whose arrivals are 299, 300 and 1 seconds apart.
\<close>

definition mumbai_express :: Train where
  "mumbai_express = \<lparr>train_number = ''12951'', train_type = ''express'',
     priority = 9, origin = ''Mumbai Central'', destination = ''New Delhi'',
     scheduled_departure = 36000, scheduled_arrival = 93600,
     current_location = ''Mumbai Central'', speed = 120, length_train = 450, weight = 800,
     status = ''running'', id_train = ''train_1''\<rparr>"

definition mumbai_local :: Train where
  "mumbai_local = \<lparr>train_number = ''90123'', train_type = ''local'',
     priority = 5, origin = ''Mumbai Central'', destination = ''Virar'',
     scheduled_departure = 36000, scheduled_arrival = 41400,
     current_location = ''Mumbai Central'', speed = 60, length_train = 200, weight = 300,
     status = ''running'', id_train = ''train_2''\<rparr>"

definition mumbai_engine :: OptimizationEngine where
  "mumbai_engine = add_train mumbai_local (add_train mumbai_express init_engine)"

definition delhi_rajdhani :: Train where
  "delhi_rajdhani = \<lparr>train_number = ''12951'', train_type = ''express'',
     priority = 9, origin = ''Mumbai Central'', destination = ''New Delhi'',
     scheduled_departure = 36000, scheduled_arrival = 93600,
     current_location = ''Mumbai Central'', speed = 120, length_train = 450, weight = 800,
     status = ''running'', id_train = ''train_1''\<rparr>"

definition delhi_shatabdi :: Train where
  "delhi_shatabdi = \<lparr>train_number = ''12001'', train_type = ''express'',
     priority = 8, origin = ''Bhopal'', destination = ''New Delhi'',
     scheduled_departure = 60000, scheduled_arrival = 93899,
     current_location = ''Bhopal'', speed = 110, length_train = 400, weight = 700,
     status = ''running'', id_train = ''train_2''\<rparr>"

definition delhi_duronto :: Train where
  "delhi_duronto = \<lparr>train_number = ''12259'', train_type = ''express'',
     priority = 7, origin = ''Sealdah'', destination = ''New Delhi'',
     scheduled_departure = 30000, scheduled_arrival = 93900,
     current_location = ''Kanpur'', speed = 100, length_train = 500, weight = 900,
     status = ''running'', id_train = ''train_3''\<rparr>"

definition delhi_engine :: OptimizationEngine where
  "delhi_engine = add_train delhi_duronto (add_train delhi_shatabdi (add_train delhi_rajdhani init_engine))"

section \<open>The schedule optimizer\<close>

text \<open>
  \<^verbatim>\<open>optimize_schedule\<close> builds a CP-SAT model and hands it to the solver of the OR-tools
  library. The model is kept as data: every \<^verbatim>\<open>NewIntVar\<close> and \<^verbatim>\<open>NewBoolVar\<close> allocates
  the next variable index, as the library does, so two calls never return the same variable.
  The two kinds of constraint are the two the method writes: \<open>LinEq l d c\<close> is
  \<^verbatim>\<open>x_l == x_d - c\<close>, and \<open>LinLeIf u c v b\<close> is \<^verbatim>\<open>x_u + c <= x_v\<close> with
  \<^verbatim>\<open>OnlyEnforceIf(x_b)\<close>. The objective is a list of terms, variable times coefficient.
\<close>

datatype cp_status = UNKNOWN | MODEL_INVALID | FEASIBLE | INFEASIBLE | OPTIMAL

record cp_var =
  lb :: int
  ub :: int
  var_name :: string

datatype cp_constraint = LinEq nat nat int | LinLeIf nat int nat nat

record CpModel =
  variables :: "cp_var list"
  constraints :: "cp_constraint list"
  objective :: "(nat \<times> rat) list"

definition CpModel_init :: CpModel where
  "CpModel_init = \<lparr>variables = [], constraints = [], objective = []\<rparr>"

definition NewIntVar :: "int \<Rightarrow> int \<Rightarrow> string \<Rightarrow> CpModel \<Rightarrow> nat \<times> CpModel" where
  "NewIntVar l u name model =
     (length (variables model),
      model\<lparr>variables := variables model @ [\<lparr>lb = l, ub = u, var_name = name\<rparr>]\<rparr>)"

definition NewBoolVar :: "string \<Rightarrow> CpModel \<Rightarrow> nat \<times> CpModel" where
  "NewBoolVar name model = NewIntVar 0 1 name model"

definition Add :: "cp_constraint \<Rightarrow> CpModel \<Rightarrow> CpModel" where
  "Add c model = model\<lparr>constraints := constraints model @ [c]\<rparr>"

definition Minimize :: "(nat \<times> rat) list \<Rightarrow> CpModel \<Rightarrow> CpModel" where
  "Minimize terms model = model\<lparr>objective := terms\<rparr>"

text \<open>Python's \<^verbatim>\<open>int(x)\<close> on a float truncates towards zero.\<close>

definition py_int :: "rat \<Rightarrow> int" where
  "py_int x = (if 0 \<le> x then \<lfloor>x\<rfloor> else \<lceil>x\<rceil>)"

definition base_departure_of :: "Train \<Rightarrow> int" where
  "base_departure_of train = py_int (scheduled_departure train / 60)"

definition base_arrival_of :: "Train \<Rightarrow> int" where
  "base_arrival_of train = py_int (scheduled_arrival train / 60)"

text \<open>The three dictionaries of decision variables, keyed by train id.\<close>

record decision_vars =
  train_departures :: "(string \<times> nat) list"
  train_arrivals :: "(string \<times> nat) list"
  train_delays :: "(string \<times> nat) list"

definition no_vars :: decision_vars where
  "no_vars = \<lparr>train_departures = [], train_arrivals = [], train_delays = []\<rparr>"

text \<open>The first loop: three variables and the delay equation for every train.\<close>

definition declare_train :: "string \<Rightarrow> Train \<Rightarrow> CpModel \<times> decision_vars \<Rightarrow> CpModel \<times> decision_vars" where
  "declare_train train_id train state =
     (let model = fst state; vars = snd state;
          base_departure = base_departure_of train;
          base_arrival = base_arrival_of train;
          departure = NewIntVar base_departure (base_departure + 60) (''departure_'' @ train_id) model;
          arrival = NewIntVar base_arrival (base_arrival + 60) (''arrival_'' @ train_id) (snd departure);
          delay = NewIntVar 0 60 (''delay_'' @ train_id) (snd arrival)
      in (Add (LinEq (fst delay) (fst departure) base_departure) (snd delay),
          \<lparr>train_departures = AList.update train_id (fst departure) (train_departures vars),
           train_arrivals = AList.update train_id (fst arrival) (train_arrivals vars),
           train_delays = AList.update train_id (fst delay) (train_delays vars)\<rparr>))"

fun declare_variables :: "(string \<times> Train) list \<Rightarrow> CpModel \<times> decision_vars \<Rightarrow> CpModel \<times> decision_vars" where
  "declare_variables [] state = state"
| "declare_variables (item # rest) state =
     declare_variables rest (declare_train (fst item) (snd item) state)"

text \<open>
  The second loop. Only a conflict of type \<^verbatim>\<open>"headway"\<close> adds anything. Each of its two
  inequalities is enforced by a Boolean variable created on the spot and mentioned nowhere
  else. A conflict naming a train that is no longer in the dictionary raises \<^verbatim>\<open>KeyError\<close>.
\<close>

definition min_headway_minutes :: int where
  "min_headway_minutes = 5"

definition add_headway :: "Conflict \<Rightarrow> decision_vars \<Rightarrow> CpModel \<Rightarrow> py_error + CpModel" where
  "add_headway conflict vars model =
     (case map_of (train_departures vars) (train1_id conflict) of
        None \<Rightarrow> Inl (KeyError (train1_id conflict))
      | Some departure1 \<Rightarrow>
     (case map_of (train_departures vars) (train2_id conflict) of
        None \<Rightarrow> Inl (KeyError (train2_id conflict))
      | Some departure2 \<Rightarrow>
          let train1_first =
                NewBoolVar (''train1_first_'' @ train1_id conflict @ ''_'' @ train2_id conflict) model;
              model1 = Add (LinLeIf departure1 min_headway_minutes departure2 (fst train1_first))
                           (snd train1_first);
              train2_first =
                NewBoolVar (''train2_first_'' @ train1_id conflict @ ''_'' @ train2_id conflict) model1
          in Inr (Add (LinLeIf departure2 min_headway_minutes departure1 (fst train2_first))
                      (snd train2_first))))"

fun add_conflict_constraints :: "Conflict list \<Rightarrow> decision_vars \<Rightarrow> CpModel \<Rightarrow> py_error + CpModel" where
  "add_conflict_constraints [] vars model = Inr model"
| "add_conflict_constraints (conflict # rest) vars model =
     (if conflict_type conflict = ''headway'' then
        case add_headway conflict vars model of
          Inl err \<Rightarrow> Inl err
        | Inr model' \<Rightarrow> add_conflict_constraints rest vars model'
      else add_conflict_constraints rest vars model)"

text \<open>The third loop: the objective terms, weight \<^verbatim>\<open>1.0 / train.priority\<close>.\<close>

fun objective_terms :: "(string \<times> Train) list \<Rightarrow> decision_vars \<Rightarrow> py_error + (nat \<times> rat) list" where
  "objective_terms [] vars = Inr []"
| "objective_terms (item # rest) vars =
     (if priority (snd item) = 0 then Inl ZeroDivisionError
      else case map_of (train_delays vars) (fst item) of
             None \<Rightarrow> Inl (KeyError (fst item))
           | Some delay \<Rightarrow>
               (case objective_terms rest vars of
                  Inl err \<Rightarrow> Inl err
                | Inr terms \<Rightarrow> Inr ((delay, 1 / of_int (priority (snd item))) # terms)))"

definition build_model :: "OptimizationEngine \<Rightarrow> py_error + CpModel \<times> decision_vars" where
  "build_model e =
     (let declared = declare_variables (trains e) (CpModel_init, no_vars)
      in case add_conflict_constraints (conflicts e) (snd declared) (fst declared) of
           Inl err \<Rightarrow> Inl err
         | Inr model \<Rightarrow>
             (case objective_terms (trains e) (snd declared) of
                Inl err \<Rightarrow> Inl err
              | Inr terms \<Rightarrow> Inr (Minimize terms model, snd declared)))"

text \<open>
  What the method returns. \<^verbatim>\<open>datetime.fromtimestamp(minutes * 60)\<close> is the instant
  \<open>minutes * 60\<close> in seconds. The keys of \<^verbatim>\<open>self.trains\<close> are distinct, so every
  assignment to \<^verbatim>\<open>solution[train_id]\<close> appends a new entry.
\<close>

record schedule_entry =
  departure_time :: datetime
  arrival_time :: datetime
  delay_minutes :: int

datatype OptimizationResult =
    Solved string "(string \<times> schedule_entry) list" int nat
  | NoSolution nat
  | Failed py_error

fun result_status :: "OptimizationResult \<Rightarrow> string" where
  "result_status (Solved status_name solution delay_sum resolved) = status_name"
| "result_status (NoSolution n) = ''infeasible''"
| "result_status (Failed err) = ''error''"

fun result_solution :: "OptimizationResult \<Rightarrow> (string \<times> schedule_entry) list" where
  "result_solution (Solved status_name solution delay_sum resolved) = solution"
| "result_solution (NoSolution n) = []"
| "result_solution (Failed err) = []"

fun extract_solution :: "string list \<Rightarrow> decision_vars \<Rightarrow> (nat \<Rightarrow> int)
    \<Rightarrow> py_error + (string \<times> schedule_entry) list" where
  "extract_solution [] vars Value = Inr []"
| "extract_solution (train_id # rest) vars Value =
     (case map_of (train_departures vars) train_id of
        None \<Rightarrow> Inl (KeyError train_id)
      | Some departure \<Rightarrow>
     (case map_of (train_arrivals vars) train_id of
        None \<Rightarrow> Inl (KeyError train_id)
      | Some arrival \<Rightarrow>
     (case map_of (train_delays vars) train_id of
        None \<Rightarrow> Inl (KeyError train_id)
      | Some delay \<Rightarrow>
     (case extract_solution rest vars Value of
        Inl err \<Rightarrow> Inl err
      | Inr entries \<Rightarrow>
          Inr ((train_id, \<lparr>departure_time = of_int (Value departure) * 60,
                           arrival_time = of_int (Value arrival) * 60,
                           delay_minutes = Value delay\<rparr>) # entries)))))"

text \<open>
  The solver is a parameter: \<open>Solve model\<close> is the status and the value of every variable.
\<close>

definition optimize_schedule ::
    "(CpModel \<Rightarrow> cp_status \<times> (nat \<Rightarrow> int)) \<Rightarrow> OptimizationEngine \<Rightarrow> OptimizationResult" where
  "optimize_schedule Solve e =
     (case build_model e of
        Inl err \<Rightarrow> Failed err
      | Inr built \<Rightarrow>
          let answer = Solve (fst built); status = fst answer; Value = snd answer
          in if status = OPTIMAL \<or> status = FEASIBLE then
               case extract_solution (map fst (trains e)) (snd built) Value of
                 Inl err \<Rightarrow> Failed err
               | Inr solution \<Rightarrow>
                   Solved (if status = OPTIMAL then ''optimal'' else ''feasible'')
                          solution
                          (sum_list (map (\<lambda>entry. Value (snd entry)) (train_delays (snd built))))
                          (length (conflicts e))
             else NoSolution (length (conflicts e)))"

text \<open>
  What OR-tools promises of an answer: a solution reported \<^verbatim>\<open>FEASIBLE\<close> or \<^verbatim>\<open>OPTIMAL\<close>
  keeps every variable in its domain and satisfies every constraint whose enforcement
  literal is true; an \<^verbatim>\<open>OPTIMAL\<close> one has the least objective value of all such
  assignments; \<^verbatim>\<open>INFEASIBLE\<close> is reported only when there is none.
\<close>

definition within_bounds :: "CpModel \<Rightarrow> (nat \<Rightarrow> int) \<Rightarrow> bool" where
  "within_bounds model Value \<longleftrightarrow>
     (\<forall>i < length (variables model).
        lb (variables model ! i) \<le> Value i \<and> Value i \<le> ub (variables model ! i))"

fun holds :: "(nat \<Rightarrow> int) \<Rightarrow> cp_constraint \<Rightarrow> bool" where
  "holds Value (LinEq l d c) = (Value l = Value d - c)"
| "holds Value (LinLeIf u c v b) = (Value b = 1 \<longrightarrow> Value u + c \<le> Value v)"

definition satisfies :: "CpModel \<Rightarrow> (nat \<Rightarrow> int) \<Rightarrow> bool" where
  "satisfies model Value \<longleftrightarrow> within_bounds model Value \<and> list_all (holds Value) (constraints model)"

definition objective_value :: "CpModel \<Rightarrow> (nat \<Rightarrow> int) \<Rightarrow> rat" where
  "objective_value model Value =
     sum_list (map (\<lambda>term. snd term * of_int (Value (fst term))) (objective model))"

definition solver_contract :: "CpModel \<Rightarrow> cp_status \<times> (nat \<Rightarrow> int) \<Rightarrow> bool" where
  "solver_contract model answer \<longleftrightarrow>
     (fst answer = OPTIMAL \<longrightarrow>
        satisfies model (snd answer) \<and>
        (\<forall>Value. satisfies model Value
           \<longrightarrow> objective_value model (snd answer) \<le> objective_value model Value)) \<and>
     (fst answer = FEASIBLE \<longrightarrow> satisfies model (snd answer)) \<and>
     (fst answer = INFEASIBLE \<longrightarrow> (\<forall>Value. \<not> satisfies model Value))"

text \<open>
  A solver to run the model on: it answers \<^verbatim>\<open>OPTIMAL\<close> with every variable at its lower
  bound. For the models of \<open>build_model\<close> with positive priorities that answer meets the
  contract.
\<close>

definition lower_bounds :: "CpModel \<Rightarrow> nat \<Rightarrow> int" where
  "lower_bounds model i = (if i < length (variables model) then lb (variables model ! i) else 0)"

definition lower_bound_solver :: "CpModel \<Rightarrow> cp_status \<times> (nat \<Rightarrow> int)" where
  "lower_bound_solver model = (OPTIMAL, lower_bounds model)"

section \<open>Disruptions and metrics\<close>

text \<open>
  The loop of \<^verbatim>\<open>reoptimize_on_disruption\<close> over the affected ids. An id that is not a key
  of \<^verbatim>\<open>self.trains\<close> is passed over; so is every id when the disruption type is none of the
  three the method knows. Setting the status of a stored train keeps its place in the
  dictionary.
\<close>

definition disrupt_train :: "string \<Rightarrow> string \<Rightarrow> (string \<times> Train) list \<Rightarrow> (string \<times> Train) list" where
  "disrupt_train disruption_type train_id items =
     (case map_of items train_id of
        None \<Rightarrow> items
      | Some train \<Rightarrow>
          if disruption_type = ''delay'' then
            AList.update train_id (train\<lparr>status := ''delayed''\<rparr>) items
          else if disruption_type = ''cancellation'' then
            AList.delete train_id items
          else if disruption_type = ''maintenance'' then
            AList.update train_id (train\<lparr>status := ''maintenance''\<rparr>) items
          else items)"

fun apply_disruption :: "string \<Rightarrow> string list \<Rightarrow> (string \<times> Train) list \<Rightarrow> (string \<times> Train) list" where
  "apply_disruption disruption_type [] items = items"
| "apply_disruption disruption_type (train_id # rest) items =
     apply_disruption disruption_type rest (disrupt_train disruption_type train_id items)"

text \<open>
  The method returns the result of \<^verbatim>\<open>optimize_schedule\<close>; an exception of
  \<^verbatim>\<open>detect_conflicts\<close> is not caught and leaves the trains already changed. The engine
  after the call is returned with the outcome.
\<close>

definition reoptimize_on_disruption ::
    "(CpModel \<Rightarrow> cp_status \<times> (nat \<Rightarrow> int)) \<Rightarrow> string \<Rightarrow> string list \<Rightarrow> OptimizationEngine
     \<Rightarrow> (py_error + OptimizationResult) \<times> OptimizationEngine" where
  "reoptimize_on_disruption Solve disruption_type affected_trains e =
     (let e1 = e\<lparr>trains := apply_disruption disruption_type affected_trains (trains e)\<rparr>
      in case detect_conflicts e1 of
           Inl err \<Rightarrow> (Inl err, e1)
         | Inr found \<Rightarrow> (Inr (optimize_schedule Solve (snd found)), snd found))"

text \<open>
  \<^verbatim>\<open>get_throughput_metrics\<close>; the current time \<^verbatim>\<open>datetime.now()\<close> is a parameter.
\<close>

record Metrics =
  total_trains :: nat
  running_trains :: nat
  delayed_trains :: nat
  cancelled_trains :: nat
  average_delay_minutes :: rat
  punctuality_percentage :: rat
  conflicts_detected :: nat
  throughput_efficiency :: rat

definition count_status :: "string \<Rightarrow> (string \<times> Train) list \<Rightarrow> nat" where
  "count_status s items = length (filter (\<lambda>item. status (snd item) = s) items)"

definition get_throughput_metrics :: "datetime \<Rightarrow> OptimizationEngine \<Rightarrow> Metrics" where
  "get_throughput_metrics now e =
     (let total = length (trains e);
          running = count_status ''running'' (trains e);
          delayed = count_status ''delayed'' (trains e);
          total_delay =
            sum_list (map (\<lambda>item. max 0 ((now - scheduled_departure (snd item)) / 60))
                          (filter (\<lambda>item. status (snd item) = ''delayed'') (trains e)));
          avg_delay = (if delayed > 0 then total_delay / of_nat (max 1 delayed) else 0)
      in \<lparr>total_trains = total,
          running_trains = running,
          delayed_trains = delayed,
          cancelled_trains = count_status ''cancelled'' (trains e),
          average_delay_minutes = avg_delay,
          punctuality_percentage = of_nat running / of_nat (max 1 total) * 100,
          conflicts_detected = length (conflicts e),
          throughput_efficiency = of_nat running / of_nat (max 1 total) * 100\<rparr>)"

section \<open>The train endpoints\<close>






datatype http_error = Unprocessable_Entity | Not_Found | Internal_Server_Error













section \<open>Properties of the optimizer: definitions\<close>

text \<open>
  What building the model keeps true. A model only grows: variables and constraints are
  appended. \<open>constraint_ok\<close> is what the assignment of every variable to its lower bound
  needs of a constraint, and \<open>train_declared\<close> is what the first loop leaves behind for a
  train: its three variables, their domains and its delay equation.
\<close>

definition extends :: "CpModel \<Rightarrow> CpModel \<Rightarrow> bool" where
  "extends model model' \<longleftrightarrow>
     (\<exists>vs. variables model' = variables model @ vs) \<and>
     set (constraints model) \<subseteq> set (constraints model')"

fun constraint_ok :: "CpModel \<Rightarrow> cp_constraint \<Rightarrow> bool" where
  "constraint_ok model (LinEq l d c) \<longleftrightarrow>
     l < length (variables model) \<and> d < length (variables model) \<and>
     lb (variables model ! l) = lb (variables model ! d) - c"
| "constraint_ok model (LinLeIf u c v b) \<longleftrightarrow>
     b < length (variables model) \<and> lb (variables model ! b) = 0"

definition model_ok :: "CpModel \<Rightarrow> bool" where
  "model_ok model \<longleftrightarrow>
     list_all (\<lambda>x. lb x \<le> ub x) (variables model) \<and>
     list_all (constraint_ok model) (constraints model)"

definition train_declared :: "CpModel \<Rightarrow> decision_vars \<Rightarrow> string \<Rightarrow> Train \<Rightarrow> bool" where
  "train_declared model vars k t \<longleftrightarrow>
     (\<exists>d a l. map_of (train_departures vars) k = Some d
        \<and> map_of (train_arrivals vars) k = Some a
        \<and> map_of (train_delays vars) k = Some l
        \<and> d < length (variables model) \<and> a < length (variables model)
        \<and> l < length (variables model)
        \<and> lb (variables model ! d) = base_departure_of t
        \<and> ub (variables model ! d) = base_departure_of t + 60
        \<and> lb (variables model ! l) = 0 \<and> ub (variables model ! l) = 60
        \<and> LinEq l d (base_departure_of t) \<in> set (constraints model))"

text \<open>
  The hypotheses and conclusions of the claims about schedules: the solver keeps its
  contract on the model of the engine, the priorities are positive, a returned schedule
  respects a headway conflict when one of its two trains leaves at least 5 minutes before
  the other.
\<close>

definition solver_ok :: "(CpModel \<Rightarrow> cp_status \<times> (nat \<Rightarrow> int)) \<Rightarrow> OptimizationEngine \<Rightarrow> bool" where
  "solver_ok Solve e \<longleftrightarrow>
     (case build_model e of
        Inl err \<Rightarrow> True
      | Inr built \<Rightarrow> solver_contract (fst built) (Solve (fst built)))"

definition priorities_positive :: "OptimizationEngine \<Rightarrow> bool" where
  "priorities_positive e \<longleftrightarrow> list_all (\<lambda>item. 0 < priority (snd item)) (trains e)"

definition headway_respected :: "(string \<times> schedule_entry) list \<Rightarrow> Conflict \<Rightarrow> bool" where
  "headway_respected solution conflict \<longleftrightarrow>
     (case (map_of solution (train1_id conflict), map_of solution (train2_id conflict)) of
        (Some entry1, Some entry2) \<Rightarrow>
           departure_time entry1 + 5 * 60 \<le> departure_time entry2
           \<or> departure_time entry2 + 5 * 60 \<le> departure_time entry1
      | _ \<Rightarrow> False)"

definition objective_ok :: "CpModel \<Rightarrow> bool" where
  "objective_ok model \<longleftrightarrow>
     list_all (\<lambda>term. fst term < length (variables model)
                 \<and> lb (variables model ! fst term) = 0 \<and> 0 < snd term) (objective model)"

definition mumbai_detected :: OptimizationEngine where
  "mumbai_detected = (case detect_conflicts mumbai_engine of Inl err \<Rightarrow> mumbai_engine | Inr found \<Rightarrow> snd found)"

definition delaying_solver :: "CpModel \<Rightarrow> cp_status \<times> (nat \<Rightarrow> int)" where
  "delaying_solver model =
     (FEASIBLE, \<lambda>i. if i < 8 then [600, 1560, 0, 605, 690, 5, 1, 0] ! i else 0)"

definition whole_minutes :: "datetime \<Rightarrow> bool" where
  "whole_minutes x \<longleftrightarrow> of_int \<lfloor>x / 60\<rfloor> * 60 = x"

text \<open>
  The engine with its platform conflicts removed, and a result with its conflict count
  replaced.
\<close>

definition headway_only :: "OptimizationEngine \<Rightarrow> OptimizationEngine" where
  "headway_only e = e\<lparr>conflicts := filter (\<lambda>c. conflict_type c = ''headway'') (conflicts e)\<rparr>"

fun with_conflict_count :: "nat \<Rightarrow> OptimizationResult \<Rightarrow> OptimizationResult" where
  "with_conflict_count n (Solved status_name solution delay_sum resolved)
     = Solved status_name solution delay_sum n"
| "with_conflict_count n (NoSolution resolved) = NoSolution n"
| "with_conflict_count n (Failed err) = Failed err"

definition delhi_detected :: OptimizationEngine where
  "delhi_detected = (case detect_conflicts delhi_engine of Inl err \<Rightarrow> delhi_engine | Inr found \<Rightarrow> snd found)"

text \<open>
  The fleet of the scenario: priorities 8, 5, 6, 9 and 10, the priority-5 and the
  priority-9 train leaving Mumbai Central in the same minute. \<open>delay_priority_5\<close> and
  \<open>delay_priority_9\<close> are the two single-sided resolutions of their conflict as values of
  the model's variables.
\<close>

definition fleet_train :: "string \<Rightarrow> int \<Rightarrow> string \<Rightarrow> string \<Rightarrow> datetime \<Rightarrow> datetime \<Rightarrow> Train" where
  "fleet_train k p location dest departs arrives =
     \<lparr>train_number = k, train_type = ''express'', priority = p,
      origin = location, destination = dest, scheduled_departure = departs,
      scheduled_arrival = arrives, current_location = location, speed = 100,
      length_train = 400, weight = 700, status = ''running'', id_train = k\<rparr>"

definition fleet :: "Train list" where
  "fleet = [fleet_train ''train_1'' 8 ''Pune'' ''Nagpur'' 36000 72000,
            fleet_train ''train_2'' 5 ''Mumbai Central'' ''Surat'' 36000 50400,
            fleet_train ''train_3'' 6 ''Vadodara'' ''Ahmedabad'' 36000 43200,
            fleet_train ''train_4'' 9 ''Mumbai Central'' ''New Delhi'' 36000 93600,
            fleet_train ''train_5'' 10 ''Bhopal'' ''Chennai'' 36000 108000]"

definition fleet_engine :: OptimizationEngine where
  "fleet_engine = foldl (\<lambda>e train. add_train train e) init_engine fleet"

definition fleet_detected :: OptimizationEngine where
  "fleet_detected = (case detect_conflicts fleet_engine of Inl err \<Rightarrow> fleet_engine | Inr found \<Rightarrow> snd found)"

definition spec_absorbs_all_delay :: "(string \<times> schedule_entry) list \<Rightarrow> string \<Rightarrow> bool" where
  "spec_absorbs_all_delay solution k \<longleftrightarrow>
     (case map_of solution k of None \<Rightarrow> False | Some entry \<Rightarrow> 0 < delay_minutes entry)
     \<and> list_all (\<lambda>item. fst item = k \<or> delay_minutes (snd item) = 0) solution"

definition delay_priority_5 :: "nat \<Rightarrow> int" where
  "delay_priority_5 i =
     (if i < 17 then [600, 1200, 0, 605, 840, 5, 600, 720, 0, 600, 1560, 0, 600, 1800, 0, 0, 1] ! i
      else 0)"

definition delay_priority_9 :: "nat \<Rightarrow> int" where
  "delay_priority_9 i =
     (if i < 17 then [600, 1200, 0, 600, 840, 0, 600, 720, 0, 605, 1560, 5, 600, 1800, 0, 1, 0] ! i
      else 0)"

definition fleet_model_of :: CpModel where
  "fleet_model_of = (case build_model fleet_detected of Inl err \<Rightarrow> CpModel_init | Inr built \<Rightarrow> fst built)"

section \<open>Properties of disruptions, metrics and endpoints: definitions\<close>

text \<open>
  Marking the affected trains with a status, and a conflict naming one of the given ids.
\<close>

definition mark_status :: "string \<Rightarrow> string list \<Rightarrow> string \<times> Train \<Rightarrow> string \<times> Train" where
  "mark_status s ids item =
     (if fst item \<in> set ids then (fst item, (snd item)\<lparr>status := s\<rparr>) else item)"

definition named_in :: "string list \<Rightarrow> Conflict \<Rightarrow> bool" where
  "named_in ids c \<longleftrightarrow> train1_id c \<in> set ids \<or> train2_id c \<in> set ids"

text \<open>The fleet with its priority-5 train marked as delayed.\<close>

definition fleet_delayed :: OptimizationEngine where
  "fleet_delayed = fleet_detected\<lparr>trains := map (mark_status ''delayed'' [''train_2'']) (trains fleet_detected)\<rparr>"



section \<open>Conflict detection: the pairs of trains and their conflicts\<close>

text \<open>
  When no speed is zero the two loops return the concatenation of what the ordered pairs
  contribute. With distinct keys and every train stored under its id, the conflicts of an
  unordered pair come from exactly one ordered pair, the one in increasing key order.
\<close>

lemma check_pair_returns:
  assumes "speed (snd item1) \<noteq> 0" and "speed (snd item2) \<noteq> 0"
  shows "check_pair item1 item2 = Inr (pair_found item1 item2)"
  using assms
  by (simp add: pair_found_def check_pair_def check_headway_conflict_def Let_def)

lemma inner_loop_returns:
  assumes "speed (snd item1) \<noteq> 0" and "list_all (\<lambda>item. speed (snd item) \<noteq> 0) items"
  shows "inner_loop item1 items = Inr (concat (map (pair_found item1) items))"
  using assms
  by (induction items) (simp_all add: check_pair_returns)

lemma outer_loop_returns:
  assumes "list_all (\<lambda>item. speed (snd item) \<noteq> 0) rest"
    and "list_all (\<lambda>item. speed (snd item) \<noteq> 0) items"
  shows "outer_loop rest items
         = Inr (concat (map (\<lambda>item1. concat (map (pair_found item1) items)) rest))"
  using assms
  by (induction rest) (simp_all add: inner_loop_returns)

lemma detect_conflicts_returns:
  assumes "speeds_nonzero e"
  shows "detect_conflicts e =
         Inr (concat (map (\<lambda>item1. concat (map (pair_found item1) (trains e))) (trains e)),
              e\<lparr>conflicts := concat (map (\<lambda>item1. concat (map (pair_found item1) (trains e))) (trains e))\<rparr>)"
  using assms by (simp add: detect_conflicts_def speeds_nonzero_def outer_loop_returns)

lemma concat_map_single:
  assumes "distinct xs" and "x \<in> set xs" and "\<And>y. y \<in> set xs \<Longrightarrow> y \<noteq> x \<Longrightarrow> f y = []"
  shows "concat (map f xs) = f x"
  using assms
proof (induction xs)
  case Nil
  then show ?case by simp
next
  case (Cons z zs)
  show ?case
  proof (cases "z = x")
    case True
    then have "x \<notin> set zs" using Cons.prems(1) by simp
    then have "\<And>y. y \<in> set zs \<Longrightarrow> f y = []" using Cons.prems(3) by auto
    then have "concat (map f zs) = []" by simp
    with True show ?thesis by simp
  next
    case False
    then have "x \<in> set zs" using Cons.prems(2) by simp
    moreover have "f z = []" using Cons.prems(3) False by simp
    ultimately show ?thesis using Cons by simp
  qed
qed

lemma pair_found_ids:
  assumes "c \<in> set (pair_found item1 item2)"
  shows "train1_id c = id_train (snd item1) \<and> train2_id c = id_train (snd item2) \<and> fst item1 < fst item2"
  using assms
  by (auto simp: pair_found_def check_pair_def check_headway_conflict_def check_platform_conflict_def
      append_if_found_def Let_def split: if_splits sum.splits option.splits)

lemma between_pair_found_other:
  assumes "a < b" and "fst item1 = id_train (snd item1)" and "fst item2 = id_train (snd item2)"
    and "fst item1 \<noteq> a \<or> fst item2 \<noteq> b"
  shows "conflicts_between kind a b (pair_found item1 item2) = []"
proof -
  have "\<not> (conflict_type c = kind \<and> {train1_id c, train2_id c} = {a, b})"
    if "c \<in> set (pair_found item1 item2)" for c
  proof
    assume h: "conflict_type c = kind \<and> {train1_id c, train2_id c} = {a, b}"
    from pair_found_ids [OF that] assms(2,3)
    have ids: "train1_id c = fst item1" "train2_id c = fst item2" "fst item1 < fst item2" by simp_all
    with h have "{fst item1, fst item2} = {a, b}" by simp
    with ids(3) assms(1) have "fst item1 = a \<and> fst item2 = b"
      by (auto simp: doubleton_eq_iff)
    with assms(4) show False by simp
  qed
  then show ?thesis by (simp add: conflicts_between_def filter_empty_conv)
qed

lemma conflicts_between_concat:
  "conflicts_between kind a b (concat xss) = concat (map (conflicts_between kind a b) xss)"
  by (induction xss) (simp_all add: conflicts_between_def)

lemma between_detected:
  assumes wf: "distinct (map fst items)" "list_all (\<lambda>item. fst item = id_train (snd item)) items"
    and "(a, ta) \<in> set items" and "(b, tb) \<in> set items" and "a < b"
  shows "conflicts_between kind a b (concat (map (\<lambda>item1. concat (map (pair_found item1) items)) items))
         = conflicts_between kind a b (pair_found (a, ta) (b, tb))"
proof -
  have d: "distinct items" using wf(1) by (simp add: distinct_map)
  have key: "fst item = id_train (snd item)" if "item \<in> set items" for item
    using wf(2) that by (simp add: list_all_iff)
  have uniq: "item = (k, t)" if "item \<in> set items" "(k, t) \<in> set items" "fst item = k" for item k t
    using wf(1) that by (metis eq_key_imp_eq_value prod.collapse)
  let ?row = "\<lambda>item1. concat (map (\<lambda>item2. conflicts_between kind a b (pair_found item1 item2)) items)"
  have row_other: "?row item1 = []" if "item1 \<in> set items" "item1 \<noteq> (a, ta)" for item1
  proof -
    have "fst item1 \<noteq> a" using uniq [OF that(1) assms(3)] that(2) by blast
    then have "conflicts_between kind a b (pair_found item1 item2) = []"
      if "item2 \<in> set items" for item2
      using between_pair_found_other [OF assms(5) key [OF \<open>item1 \<in> set items\<close>] key [OF that]] by simp
    then show ?thesis by simp
  qed
  have row_a: "?row (a, ta) = conflicts_between kind a b (pair_found (a, ta) (b, tb))"
  proof (rule concat_map_single [OF d assms(4)])
    fix item2 assume h: "item2 \<in> set items" "item2 \<noteq> (b, tb)"
    have "fst item2 \<noteq> b" using uniq [OF h(1) assms(4)] h(2) by blast
    then show "conflicts_between kind a b (pair_found (a, ta) item2) = []"
      using between_pair_found_other [OF assms(5) key [OF assms(3)] key [OF h(1)]] by simp
  qed
  have "conflicts_between kind a b (concat (map (\<lambda>item1. concat (map (pair_found item1) items)) items))
        = concat (map ?row items)"
    by (simp add: conflicts_between_concat comp_def)
  also have "\<dots> = ?row (a, ta)"
    by (rule concat_map_single [OF d assms(3)]) (rule row_other)
  finally show ?thesis using row_a by simp
qed


lemma conflicts_between_sym: "conflicts_between kind a b cs = conflicts_between kind b a cs"
  by (simp add: conflicts_between_def insert_commute)




lemma mumbai_trains:
  "trains mumbai_engine = [(''train_1'', mumbai_express), (''train_2'', mumbai_local)]"
  by (simp add: mumbai_engine_def add_train_def init_engine_def mumbai_express_def mumbai_local_def)

lemma mumbai_wf: "engine_wf mumbai_engine" "speeds_nonzero mumbai_engine"
  by (simp_all add: engine_wf_def speeds_nonzero_def mumbai_trains)
     (simp_all add: mumbai_express_def mumbai_local_def)


lemma spec_platform_sym:
  "spec_platform_due a b = spec_platform_due b a"
  "spec_platform_options x y = spec_platform_options y x"
  by (auto simp: spec_platform_due_def spec_platform_options_def abs_minus_commute)

lemma headway_result_type:
  assumes "check_headway_conflict ta tb = Inr (Some c)"
  shows "conflict_type c = ''headway''"
  using assms by (auto simp: check_headway_conflict_def Let_def split: if_splits)

lemma platform_between_pair:
  assumes "a < b" and "id_train ta = a" and "id_train tb = b"
    and "speed ta \<noteq> 0" and "speed tb \<noteq> 0"
  shows "length (conflicts_between ''platform'' a b (pair_found (a, ta) (b, tb)))
           = (if spec_platform_due ta tb then 1 else 0)
         \<and> (\<forall>c \<in> set (conflicts_between ''platform'' a b (pair_found (a, ta) (b, tb))).
               severity c = 0.8 \<and> length (resolution_options c) = 4
               \<and> set (resolution_options c) = spec_platform_options a b)"
proof -
  have le: "\<not> b \<le> a" using assms(1) by simp
  have "\<exists>h. check_headway_conflict ta tb = Inr h"
    using assms(4,5) by (simp add: check_headway_conflict_def Let_def)
  then obtain h where h: "check_headway_conflict ta tb = Inr h" ..
  have head: "conflicts_between ''platform'' a b (append_if_found h) = []"
  proof (cases h)
    case None
    then show ?thesis by (simp add: conflicts_between_def append_if_found_def)
  next
    case (Some c)
    with h have "conflict_type c = ''headway''" by (simp add: headway_result_type)
    with Some show ?thesis by (simp add: conflicts_between_def append_if_found_def)
  qed
  have found: "pair_found (a, ta) (b, tb)
               = append_if_found h @ append_if_found (check_platform_conflict ta tb)"
    using le by (simp add: pair_found_def check_pair_def h)
  have "conflicts_between ''platform'' a b (pair_found (a, ta) (b, tb))
        = conflicts_between ''platform'' a b (append_if_found (check_platform_conflict ta tb))"
    using head by (simp add: found conflicts_between_def)
  then show ?thesis
    using assms(2,3)
    by (simp add: conflicts_between_def append_if_found_def check_platform_conflict_def
        spec_platform_due_def spec_platform_options_def)
qed

lemma platform_between_detected:
  assumes wf: "engine_wf e" and sp: "speeds_nonzero e"
    and a: "(a, ta) \<in> set (trains e)" and b: "(b, tb) \<in> set (trains e)" and ab: "a < b"
  shows "length (conflicts_between ''platform'' a b
            (concat (map (\<lambda>item1. concat (map (pair_found item1) (trains e))) (trains e))))
           = (if spec_platform_due ta tb then 1 else 0)
         \<and> (\<forall>c \<in> set (conflicts_between ''platform'' a b
            (concat (map (\<lambda>item1. concat (map (pair_found item1) (trains e))) (trains e)))).
               severity c = 0.8 \<and> length (resolution_options c) = 4
               \<and> set (resolution_options c) = spec_platform_options a b)"
proof -
  have ids: "id_train ta = a" "id_train tb = b"
    using wf a b by (auto simp: engine_wf_def list_all_iff)
  have nz: "speed ta \<noteq> 0" "speed tb \<noteq> 0"
    using sp a b by (auto simp: speeds_nonzero_def list_all_iff)
  have "conflicts_between ''platform'' a b
            (concat (map (\<lambda>item1. concat (map (pair_found item1) (trains e))) (trains e)))
        = conflicts_between ''platform'' a b (pair_found (a, ta) (b, tb))"
    using wf by (intro between_detected [OF _ _ a b ab]) (simp_all add: engine_wf_def)
  then show ?thesis using platform_between_pair [OF ab ids nz] by simp
qed

text \<open>
  Claim C3. On an engine whose keys are the train ids and whose speeds are nonzero, for
  every two trains with different ids and the same destination the list of
  \<open>detect_conflicts\<close> holds exactly one platform conflict of the pair if their scheduled
  arrivals are less than 300 seconds apart, and none otherwise, so none at exactly 300
  seconds. The conflict has severity 0.8 and four resolution options: delay either train
  by 10 minutes, or change the platform of either train.
\<close>

theorem detect_conflicts_platform:
  assumes wf: "engine_wf e" and sp: "speeds_nonzero e"
  shows "\<exists>cs. detect_conflicts e = Inr (cs, e\<lparr>conflicts := cs\<rparr>) \<and>
           (\<forall>(a, ta) \<in> set (trains e). \<forall>(b, tb) \<in> set (trains e).
              a \<noteq> b \<and> destination ta = destination tb \<longrightarrow>
              length (conflicts_between ''platform'' a b cs)
                = (if \<bar>scheduled_arrival ta - scheduled_arrival tb\<bar> < 300 then 1 else 0) \<and>
              (\<bar>scheduled_arrival ta - scheduled_arrival tb\<bar> = 300
                \<longrightarrow> conflicts_between ''platform'' a b cs = []) \<and>
              (\<forall>c \<in> set (conflicts_between ''platform'' a b cs).
                 severity c = 0.8 \<and> length (resolution_options c) = 4
                 \<and> set (resolution_options c) = spec_platform_options a b))"
proof -
  let ?cs = "concat (map (\<lambda>item1. concat (map (pair_found item1) (trains e))) (trains e))"
  have pairs: "length (conflicts_between ''platform'' a b ?cs) = (if spec_platform_due ta tb then 1 else 0) \<and>
               (\<forall>c \<in> set (conflicts_between ''platform'' a b ?cs).
                  severity c = 0.8 \<and> length (resolution_options c) = 4
                  \<and> set (resolution_options c) = spec_platform_options a b)"
    if a: "(a, ta) \<in> set (trains e)" and b: "(b, tb) \<in> set (trains e)" and ab: "a \<noteq> b"
    for a ta b tb
  proof (cases "a < b")
    case True
    then show ?thesis using platform_between_detected [OF wf sp a b] by simp
  next
    case False
    then have "b < a" using ab by simp
    from platform_between_detected [OF wf sp b a this] show ?thesis
      using spec_platform_sym(1) [of ta tb] spec_platform_sym(2) [of a b]
        conflicts_between_sym [of "''platform''" a b] by simp
  qed
  have "length (conflicts_between ''platform'' a b ?cs)
                = (if \<bar>scheduled_arrival ta - scheduled_arrival tb\<bar> < 300 then 1 else 0) \<and>
              (\<bar>scheduled_arrival ta - scheduled_arrival tb\<bar> = 300
                \<longrightarrow> conflicts_between ''platform'' a b ?cs = []) \<and>
              (\<forall>c \<in> set (conflicts_between ''platform'' a b ?cs).
                 severity c = 0.8 \<and> length (resolution_options c) = 4
                 \<and> set (resolution_options c) = spec_platform_options a b)"
    if a: "(a, ta) \<in> set (trains e)" and b: "(b, tb) \<in> set (trains e)"
      and ab: "a \<noteq> b" and dest: "destination ta = destination tb"
    for a ta b tb
    using pairs [OF a b ab] dest by (auto simp: spec_platform_due_def)
  then have "\<forall>(a, ta) \<in> set (trains e). \<forall>(b, tb) \<in> set (trains e).
              a \<noteq> b \<and> destination ta = destination tb \<longrightarrow>
              length (conflicts_between ''platform'' a b ?cs)
                = (if \<bar>scheduled_arrival ta - scheduled_arrival tb\<bar> < 300 then 1 else 0) \<and>
              (\<bar>scheduled_arrival ta - scheduled_arrival tb\<bar> = 300
                \<longrightarrow> conflicts_between ''platform'' a b ?cs = []) \<and>
              (\<forall>c \<in> set (conflicts_between ''platform'' a b ?cs).
                 severity c = 0.8 \<and> length (resolution_options c) = 4
                 \<and> set (resolution_options c) = spec_platform_options a b)"
    by blast
  with detect_conflicts_returns [OF sp] show ?thesis by blast
qed

lemma delhi_trains:
  "trains delhi_engine = [(''train_1'', delhi_rajdhani), (''train_2'', delhi_shatabdi), (''train_3'', delhi_duronto)]"
  by (simp add: delhi_engine_def add_train_def init_engine_def delhi_rajdhani_def
      delhi_shatabdi_def delhi_duronto_def)

lemma delhi_wf: "engine_wf delhi_engine" "speeds_nonzero delhi_engine"
  by (simp_all add: engine_wf_def speeds_nonzero_def delhi_trains)
     (simp_all add: delhi_rajdhani_def delhi_shatabdi_def delhi_duronto_def)

theorem detect_conflicts_platform_witness:
  "engine_wf delhi_engine \<and> speeds_nonzero delhi_engine
   \<and> (\<exists>cs. detect_conflicts delhi_engine = Inr (cs, delhi_engine\<lparr>conflicts := cs\<rparr>)
        \<and> length (conflicts_between ''platform'' ''train_1'' ''train_2'' cs) = 1
        \<and> conflicts_between ''platform'' ''train_1'' ''train_3'' cs = []
        \<and> (\<forall>c \<in> set (conflicts_between ''platform'' ''train_1'' ''train_2'' cs). severity c = 0.8))"
proof -
  have arr: "destination delhi_rajdhani = destination delhi_shatabdi"
    "destination delhi_rajdhani = destination delhi_duronto"
    "\<bar>scheduled_arrival delhi_rajdhani - scheduled_arrival delhi_shatabdi\<bar> = 299"
    "\<bar>scheduled_arrival delhi_rajdhani - scheduled_arrival delhi_duronto\<bar> = 300"
    by (simp_all add: delhi_rajdhani_def delhi_shatabdi_def delhi_duronto_def)
  from detect_conflicts_platform [OF delhi_wf]
  obtain cs where cs: "detect_conflicts delhi_engine = Inr (cs, delhi_engine\<lparr>conflicts := cs\<rparr>)"
    and all: "\<forall>(a, ta) \<in> set (trains delhi_engine). \<forall>(b, tb) \<in> set (trains delhi_engine).
              a \<noteq> b \<and> destination ta = destination tb \<longrightarrow>
              length (conflicts_between ''platform'' a b cs)
                = (if \<bar>scheduled_arrival ta - scheduled_arrival tb\<bar> < 300 then 1 else 0) \<and>
              (\<bar>scheduled_arrival ta - scheduled_arrival tb\<bar> = 300
                \<longrightarrow> conflicts_between ''platform'' a b cs = []) \<and>
              (\<forall>c \<in> set (conflicts_between ''platform'' a b cs).
                 severity c = 0.8 \<and> length (resolution_options c) = 4
                 \<and> set (resolution_options c) = spec_platform_options a b)"
    by blast
  from all arr have "length (conflicts_between ''platform'' ''train_1'' ''train_2'' cs) = 1
        \<and> conflicts_between ''platform'' ''train_1'' ''train_3'' cs = []
        \<and> (\<forall>c \<in> set (conflicts_between ''platform'' ''train_1'' ''train_2'' cs). severity c = 0.8)"
    by (simp add: delhi_trains)
  with cs delhi_wf show ?thesis by blast
qed

section \<open>The model that the optimizer builds\<close>

text \<open>
  The three loops keep the invariants of the model: every train has its variables, their
  domains and its delay equation, and the assignment of every variable to its lower bound
  satisfies all constraints, because each headway inequality hangs on a Boolean of its own
  whose lower bound is 0.
\<close>

lemma extends_refl: "extends m m"
  by (simp add: extends_def)

lemma extends_trans: "extends m1 m2 \<Longrightarrow> extends m2 m3 \<Longrightarrow> extends m1 m3"
  by (auto simp: extends_def)

lemma extends_nth:
  assumes "extends m m'" and "i < length (variables m)"
  shows "i < length (variables m') \<and> variables m' ! i = variables m ! i"
  using assms by (auto simp: extends_def nth_append)

lemma constraint_ok_extends:
  assumes "extends m m'" and "constraint_ok m c"
  shows "constraint_ok m' c"
proof (cases c)
  case (LinEq l d k)
  with assms(2) have "l < length (variables m)" "d < length (variables m)"
    "lb (variables m ! l) = lb (variables m ! d) - k" by simp_all
  with extends_nth [OF assms(1), of l] extends_nth [OF assms(1), of d] LinEq
  show ?thesis by simp
next
  case (LinLeIf u k v b)
  with assms(2) have "b < length (variables m)" "lb (variables m ! b) = 0" by simp_all
  with extends_nth [OF assms(1), of b] LinLeIf show ?thesis by simp
qed

lemma train_declared_extends:
  assumes "extends m m'" and "train_declared m vars k t"
  shows "train_declared m' vars k t"
proof -
  from assms(2) obtain d a l where
    h: "map_of (train_departures vars) k = Some d" "map_of (train_arrivals vars) k = Some a"
       "map_of (train_delays vars) k = Some l"
       "d < length (variables m)" "a < length (variables m)" "l < length (variables m)"
       "lb (variables m ! d) = base_departure_of t" "ub (variables m ! d) = base_departure_of t + 60"
       "lb (variables m ! l) = 0" "ub (variables m ! l) = 60"
       "LinEq l d (base_departure_of t) \<in> set (constraints m)"
    unfolding train_declared_def by blast
  have "LinEq l d (base_departure_of t) \<in> set (constraints m')"
    using h(11) assms(1) by (auto simp: extends_def)
  with h extends_nth [OF assms(1) h(4)] extends_nth [OF assms(1) h(5)] extends_nth [OF assms(1) h(6)]
  show ?thesis unfolding train_declared_def by auto
qed

lemma declare_train_extends: "extends (fst s) (fst (declare_train k t s))"
  by (simp add: declare_train_def Let_def NewIntVar_def Add_def extends_def) blast

lemma declare_train_model_ok:
  assumes "model_ok (fst s)"
  shows "model_ok (fst (declare_train k t s))"
proof -
  let ?m = "fst (declare_train k t s)"
  have ext: "extends (fst s) ?m" by (rule declare_train_extends)
  have vars: "list_all (\<lambda>x. lb x \<le> ub x) (variables ?m)"
    using assms by (simp add: model_ok_def declare_train_def Let_def NewIntVar_def Add_def)
  have old: "list_all (constraint_ok ?m) (constraints (fst s))"
    using assms constraint_ok_extends [OF ext] by (auto simp: model_ok_def list_all_iff)
  have new: "constraint_ok ?m (LinEq (length (variables (fst s)) + 2) (length (variables (fst s)))
                (base_departure_of t))"
    by (simp add: declare_train_def Let_def NewIntVar_def Add_def nth_append)
  have "constraints ?m = constraints (fst s)
          @ [LinEq (length (variables (fst s)) + 2) (length (variables (fst s))) (base_departure_of t)]"
    by (simp add: declare_train_def Let_def NewIntVar_def Add_def)
  with vars old new show ?thesis by (simp add: model_ok_def)
qed

lemma declare_train_declared: "train_declared (fst (declare_train k t s)) (snd (declare_train k t s)) k t"
  by (simp add: train_declared_def declare_train_def Let_def NewIntVar_def Add_def nth_append
      update_conv)

lemma declare_train_other:
  assumes "k' \<noteq> k"
  shows "map_of (train_departures (snd (declare_train k t s))) k' = map_of (train_departures (snd s)) k'"
    and "map_of (train_arrivals (snd (declare_train k t s))) k' = map_of (train_arrivals (snd s)) k'"
    and "map_of (train_delays (snd (declare_train k t s))) k' = map_of (train_delays (snd s)) k'"
  using assms by (simp_all add: declare_train_def Let_def update_conv)

lemma declare_variables_extends: "extends (fst s) (fst (declare_variables items s))"
proof (induction items arbitrary: s)
  case Nil
  show ?case by (simp add: extends_refl)
next
  case (Cons item rest)
  show ?case
    using extends_trans [OF declare_train_extends Cons.IH] by simp
qed

lemma declare_variables_model_ok:
  "model_ok (fst s) \<Longrightarrow> model_ok (fst (declare_variables items s))"
  by (induction items arbitrary: s) (simp_all add: declare_train_model_ok)

lemma declare_variables_other:
  assumes "k' \<notin> fst ` set items"
  shows "map_of (train_departures (snd (declare_variables items s))) k' = map_of (train_departures (snd s)) k'
       \<and> map_of (train_arrivals (snd (declare_variables items s))) k' = map_of (train_arrivals (snd s)) k'
       \<and> map_of (train_delays (snd (declare_variables items s))) k' = map_of (train_delays (snd s)) k'"
  using assms
  by (induction items arbitrary: s) (simp_all add: declare_train_other)

lemma train_declared_cong:
  assumes "train_declared m vars k t"
    and "map_of (train_departures vars') k = map_of (train_departures vars) k"
    and "map_of (train_arrivals vars') k = map_of (train_arrivals vars) k"
    and "map_of (train_delays vars') k = map_of (train_delays vars) k"
  shows "train_declared m vars' k t"
  using assms by (simp add: train_declared_def)

lemma declare_variables_declared:
  assumes "distinct (map fst items)" and "(k, t) \<in> set items"
  shows "train_declared (fst (declare_variables items s)) (snd (declare_variables items s)) k t"
  using assms
proof (induction items arbitrary: s)
  case Nil
  then show ?case by simp
next
  case (Cons item rest)
  let ?s1 = "declare_train (fst item) (snd item) s"
  have step: "declare_variables (item # rest) s = declare_variables rest ?s1" by simp
  show ?case
  proof (cases "(k, t) \<in> set rest")
    case True
    have "distinct (map fst rest)" using Cons.prems(1) by simp
    from Cons.IH [OF this True, of ?s1] show ?thesis unfolding step .
  next
    case False
    then have item: "item = (k, t)" using Cons.prems(2) by simp
    have notin: "k \<notin> fst ` set rest" using Cons.prems(1) item by simp
    have "train_declared (fst ?s1) (snd ?s1) k t"
      unfolding item fst_conv snd_conv by (rule declare_train_declared)
    then have d: "train_declared (fst (declare_variables rest ?s1)) (snd ?s1) k t"
      by (rule train_declared_extends [OF declare_variables_extends])
    have "train_declared (fst (declare_variables rest ?s1)) (snd (declare_variables rest ?s1)) k t"
      using declare_variables_other [OF notin, of ?s1]
      by (intro train_declared_cong [OF d]) blast+
    then show ?thesis unfolding step .
  qed
qed

lemma add_headway_extends:
  assumes "add_headway c vars m = Inr m'"
  shows "extends m m' \<and> objective m' = objective m \<and> (model_ok m \<longrightarrow> model_ok m')"
proof -
  from assms obtain d1 d2 where
    m': "m' = Add (LinLeIf d2 min_headway_minutes d1 (Suc (length (variables m))))
               (snd (NewBoolVar (''train2_first_'' @ train1_id c @ ''_'' @ train2_id c)
                  (Add (LinLeIf d1 min_headway_minutes d2 (length (variables m)))
                     (snd (NewBoolVar (''train1_first_'' @ train1_id c @ ''_'' @ train2_id c) m)))))"
    by (auto simp: add_headway_def Let_def NewBoolVar_def NewIntVar_def Add_def split: option.splits)
  have ext: "extends m m'"
    by (simp add: m' extends_def NewBoolVar_def NewIntVar_def Add_def) blast
  have obj: "objective m' = objective m"
    by (simp add: m' NewBoolVar_def NewIntVar_def Add_def)
  have ok: "model_ok m'" if "model_ok m"
  proof -
    have vars: "list_all (\<lambda>x. lb x \<le> ub x) (variables m')"
      using that by (simp add: model_ok_def m' NewBoolVar_def NewIntVar_def Add_def)
    have old: "list_all (constraint_ok m') (constraints m)"
      using that constraint_ok_extends [OF ext] by (auto simp: model_ok_def list_all_iff)
    have cs: "constraints m' = constraints m
          @ [LinLeIf d1 min_headway_minutes d2 (length (variables m)),
             LinLeIf d2 min_headway_minutes d1 (Suc (length (variables m)))]"
      by (simp add: m' NewBoolVar_def NewIntVar_def Add_def)
    have new: "constraint_ok m' (LinLeIf d1 min_headway_minutes d2 (length (variables m)))"
      "constraint_ok m' (LinLeIf d2 min_headway_minutes d1 (Suc (length (variables m))))"
      by (simp_all add: m' NewBoolVar_def NewIntVar_def Add_def nth_append)
    from vars old new show ?thesis by (simp add: model_ok_def cs)
  qed
  from ext obj ok show ?thesis by blast
qed

lemma add_conflict_constraints_extends:
  assumes "add_conflict_constraints cs vars m = Inr m'"
  shows "extends m m' \<and> objective m' = objective m \<and> (model_ok m \<longrightarrow> model_ok m')"
  using assms
proof (induction cs arbitrary: m)
  case Nil
  then show ?case by (simp add: extends_refl)
next
  case (Cons c rest)
  show ?case
  proof (cases "conflict_type c = ''headway''")
    case False
    then show ?thesis using Cons by simp
  next
    case True
    with Cons.prems obtain m1 where m1: "add_headway c vars m = Inr m1"
      and rest: "add_conflict_constraints rest vars m1 = Inr m'"
      by (auto split: sum.splits)
    from add_headway_extends [OF m1] Cons.IH [OF rest] show ?thesis
      by (auto intro: extends_trans)
  qed
qed

lemma lower_bounds_satisfy:
  assumes "model_ok m"
  shows "satisfies m (lower_bounds m)"
proof -
  have b: "within_bounds m (lower_bounds m)"
    using assms by (simp add: within_bounds_def lower_bounds_def model_ok_def list_all_length)
  have "holds (lower_bounds m) c" if "constraint_ok m c" for c
    using that by (cases c) (simp_all add: lower_bounds_def)
  then have "list_all (holds (lower_bounds m)) (constraints m)"
    using assms by (simp add: model_ok_def list_all_iff)
  with b show ?thesis by (simp add: satisfies_def)
qed

lemma constraint_ok_Minimize: "constraint_ok (Minimize ts m) = constraint_ok m"
proof (rule ext)
  fix c show "constraint_ok (Minimize ts m) c = constraint_ok m c"
    by (cases c) (simp_all add: Minimize_def)
qed

lemma model_ok_Minimize: "model_ok (Minimize ts m) = model_ok m"
  unfolding model_ok_def constraint_ok_Minimize by (simp add: Minimize_def)

lemma train_declared_Minimize: "train_declared (Minimize ts m) vars k t = train_declared m vars k t"
  by (simp add: train_declared_def Minimize_def)

lemma objective_terms_sound:
  assumes "objective_terms items vars = Inr ts" and "term \<in> set ts"
  shows "\<exists>item \<in> set items. map_of (train_delays vars) (fst item) = Some (fst term)
           \<and> priority (snd item) \<noteq> 0 \<and> snd term = 1 / of_int (priority (snd item))"
  using assms
proof (induction items arbitrary: ts)
  case Nil
  then show ?case by simp
next
  case (Cons item rest)
  from Cons.prems(1) obtain delay ts' where
    h: "priority (snd item) \<noteq> 0" "map_of (train_delays vars) (fst item) = Some delay"
       "objective_terms rest vars = Inr ts'" "ts = (delay, 1 / of_int (priority (snd item))) # ts'"
    by (auto split: if_splits option.splits sum.splits)
  show ?case
  proof (cases "term \<in> set ts'")
    case True
    from Cons.IH [OF h(3) True] show ?thesis by auto
  next
    case False
    with Cons.prems(2) h(4) have "term = (delay, 1 / of_int (priority (snd item)))" by simp
    with h show ?thesis by simp
  qed
qed

lemma objective_terms_complete:
  assumes "objective_terms items vars = Inr ts" and "item \<in> set items"
  shows "\<exists>delay. map_of (train_delays vars) (fst item) = Some delay
           \<and> (delay, 1 / of_int (priority (snd item))) \<in> set ts"
  using assms
proof (induction items arbitrary: ts)
  case Nil
  then show ?case by simp
next
  case (Cons first rest)
  from Cons.prems(1) obtain delay ts' where
    h: "map_of (train_delays vars) (fst first) = Some delay"
       "objective_terms rest vars = Inr ts'" "ts = (delay, 1 / of_int (priority (snd first))) # ts'"
    by (auto split: if_splits option.splits sum.splits)
  show ?case
  proof (cases "item = first")
    case True
    with h show ?thesis by simp
  next
    case False
    with Cons.prems(2) have "item \<in> set rest" by simp
    from Cons.IH [OF h(2) this] h(3) show ?thesis by auto
  qed
qed

lemma build_model_sound:
  assumes "build_model e = Inr built" and "distinct (map fst (trains e))"
  shows "model_ok (fst built)"
    and "\<And>k t. (k, t) \<in> set (trains e) \<Longrightarrow> train_declared (fst built) (snd built) k t"
    and "objective_terms (trains e) (snd built) = Inr (objective (fst built))"
proof -
  let ?declared = "declare_variables (trains e) (CpModel_init, no_vars)"
  from assms(1) obtain m2 ts where
    m2: "add_conflict_constraints (conflicts e) (snd ?declared) (fst ?declared) = Inr m2"
    and ts: "objective_terms (trains e) (snd ?declared) = Inr ts"
    and built: "built = (Minimize ts m2, snd ?declared)"
    by (auto simp: build_model_def Let_def split: sum.splits)
  have "model_ok (fst (CpModel_init, no_vars))"
    by (simp add: model_ok_def CpModel_init_def)
  then have ok1: "model_ok (fst ?declared)" by (rule declare_variables_model_ok)
  from add_conflict_constraints_extends [OF m2] ok1
  have ext: "extends (fst ?declared) m2" and ok2: "model_ok m2" by simp_all
  show "model_ok (fst built)" using ok2 by (simp add: built model_ok_Minimize)
  show "train_declared (fst built) (snd built) k t" if "(k, t) \<in> set (trains e)" for k t
  proof -
    have "train_declared (fst ?declared) (snd ?declared) k t"
      by (rule declare_variables_declared [OF assms(2) that])
    then have "train_declared m2 (snd ?declared) k t"
      by (rule train_declared_extends [OF ext])
    then show ?thesis by (simp add: built train_declared_Minimize)
  qed
  show "objective_terms (trains e) (snd built) = Inr (objective (fst built))"
    using ts by (simp add: built Minimize_def)
qed

lemma extract_solution_sound:
  assumes "extract_solution ks vars Value = Inr solution"
  shows "map fst solution = ks"
    and "\<And>k entry. (k, entry) \<in> set solution \<Longrightarrow>
          \<exists>d a l. map_of (train_departures vars) k = Some d
            \<and> map_of (train_arrivals vars) k = Some a
            \<and> map_of (train_delays vars) k = Some l
            \<and> entry = \<lparr>departure_time = of_int (Value d) * 60,
                        arrival_time = of_int (Value a) * 60,
                        delay_minutes = Value l\<rparr>"
proof -
  have "map fst solution = ks \<and>
        (\<forall>(k, entry) \<in> set solution.
          \<exists>d a l. map_of (train_departures vars) k = Some d
            \<and> map_of (train_arrivals vars) k = Some a
            \<and> map_of (train_delays vars) k = Some l
            \<and> entry = \<lparr>departure_time = of_int (Value d) * 60,
                        arrival_time = of_int (Value a) * 60,
                        delay_minutes = Value l\<rparr>)"
    using assms
  proof (induction ks arbitrary: solution)
    case Nil
    then show ?case by simp
  next
    case (Cons k rest)
    from Cons.prems obtain d a l entries where
      h: "map_of (train_departures vars) k = Some d" "map_of (train_arrivals vars) k = Some a"
         "map_of (train_delays vars) k = Some l" "extract_solution rest vars Value = Inr entries"
         "solution = (k, \<lparr>departure_time = of_int (Value d) * 60,
                        arrival_time = of_int (Value a) * 60,
                        delay_minutes = Value l\<rparr>) # entries"
      by (auto split: option.splits sum.splits)
    from Cons.IH [OF h(4)] h(1,2,3) show ?case unfolding h(5) by simp
  qed
  then show "map fst solution = ks"
    and "\<And>k entry. (k, entry) \<in> set solution \<Longrightarrow>
          \<exists>d a l. map_of (train_departures vars) k = Some d
            \<and> map_of (train_arrivals vars) k = Some a
            \<and> map_of (train_delays vars) k = Some l
            \<and> entry = \<lparr>departure_time = of_int (Value d) * 60,
                        arrival_time = of_int (Value a) * 60,
                        delay_minutes = Value l\<rparr>"
    by blast+
qed

section \<open>Returned schedules\<close>

lemma optimize_schedule_solved:
  assumes "result_status (optimize_schedule Solve e) = ''optimal''
           \<or> result_status (optimize_schedule Solve e) = ''feasible''"
  shows "\<exists>built. build_model e = Inr built
           \<and> (fst (Solve (fst built)) = OPTIMAL \<or> fst (Solve (fst built)) = FEASIBLE)
           \<and> (result_status (optimize_schedule Solve e) = ''optimal''
                \<longrightarrow> fst (Solve (fst built)) = OPTIMAL)
           \<and> extract_solution (map fst (trains e)) (snd built) (snd (Solve (fst built)))
               = Inr (result_solution (optimize_schedule Solve e))"
proof (cases "build_model e")
  case (Inl err)
  with assms show ?thesis by (simp add: optimize_schedule_def)
next
  case (Inr built)
  show ?thesis
  proof (cases "fst (Solve (fst built)) = OPTIMAL \<or> fst (Solve (fst built)) = FEASIBLE")
    case False
    with assms Inr show ?thesis by (simp add: optimize_schedule_def Let_def)
  next
    case True
    show ?thesis
    proof (cases "extract_solution (map fst (trains e)) (snd built) (snd (Solve (fst built)))")
      case (Inl err)
      with assms Inr True show ?thesis by (simp add: optimize_schedule_def Let_def)
    next
      case (Inr solution)
      with \<open>build_model e = Inr built\<close> True show ?thesis
        by (auto simp: optimize_schedule_def Let_def)
    qed
  qed
qed

lemma solved_entry:
  assumes built: "build_model e = Inr built" and d: "distinct (map fst (trains e))"
    and ex: "extract_solution (map fst (trains e)) (snd built) Value = Inr solution"
    and kt: "(k, t) \<in> set (trains e)"
  shows "\<exists>dv av lv. map_of (train_delays (snd built)) k = Some lv
           \<and> dv < length (variables (fst built)) \<and> lv < length (variables (fst built))
           \<and> lb (variables (fst built) ! dv) = base_departure_of t
           \<and> ub (variables (fst built) ! dv) = base_departure_of t + 60
           \<and> lb (variables (fst built) ! lv) = 0 \<and> ub (variables (fst built) ! lv) = 60
           \<and> LinEq lv dv (base_departure_of t) \<in> set (constraints (fst built))
           \<and> map_of solution k = Some \<lparr>departure_time = of_int (Value dv) * 60,
                                       arrival_time = of_int (Value av) * 60,
                                       delay_minutes = Value lv\<rparr>"
proof -
  from build_model_sound(2) [OF built d kt]
  obtain dv av lv where
    h: "map_of (train_departures (snd built)) k = Some dv"
       "map_of (train_arrivals (snd built)) k = Some av"
       "map_of (train_delays (snd built)) k = Some lv"
       "dv < length (variables (fst built))" "lv < length (variables (fst built))"
       "lb (variables (fst built) ! dv) = base_departure_of t"
       "ub (variables (fst built) ! dv) = base_departure_of t + 60"
       "lb (variables (fst built) ! lv) = 0" "ub (variables (fst built) ! lv) = 60"
       "LinEq lv dv (base_departure_of t) \<in> set (constraints (fst built))"
    unfolding train_declared_def by blast
  have keys: "map fst solution = map fst (trains e)"
    by (rule extract_solution_sound(1) [OF ex])
  have "k \<in> fst ` set solution"
    using kt keys by (metis image_eqI fst_conv list.set_map)
  then obtain entry where entry: "(k, entry) \<in> set solution" by auto
  have look: "map_of solution k = Some entry"
    using d keys entry by (simp add: map_of_is_SomeI)
  from extract_solution_sound(2) [OF ex entry] h(1,2,3)
  have "entry = \<lparr>departure_time = of_int (Value dv) * 60,
                  arrival_time = of_int (Value av) * 60,
                  delay_minutes = Value lv\<rparr>" by simp
  with look h show ?thesis by blast
qed

lemma satisfies_bounds:
  assumes "satisfies m Value" and "i < length (variables m)"
  shows "lb (variables m ! i) \<le> Value i" and "Value i \<le> ub (variables m ! i)"
  using assms by (simp_all add: satisfies_def within_bounds_def)

lemma satisfies_holds:
  assumes "satisfies m Value" and "c \<in> set (constraints m)"
  shows "holds Value c"
  using assms by (simp add: satisfies_def list_all_iff)

lemma base_departure_whole_minutes:
  assumes "whole_minutes (scheduled_departure t)"
  shows "rat_of_int (base_departure_of t) * 60 = scheduled_departure t"
proof -
  let ?x = "scheduled_departure t"
  have "?x / 60 = of_int \<lfloor>?x / 60\<rfloor>"
    using assms by (simp add: whole_minutes_def field_simps)
  then have "\<lceil>?x / 60\<rceil> = \<lfloor>?x / 60\<rfloor>"
    by (metis ceiling_of_int)
  then have "py_int (?x / 60) = \<lfloor>?x / 60\<rfloor>" by (simp add: py_int_def)
  with assms show ?thesis by (simp add: base_departure_of_def whole_minutes_def)
qed

text \<open>
  Claim C4. Whenever \<open>optimize_schedule\<close> returns status "optimal" or "feasible", the
  schedule has one entry per train, each with a delay between 0 and 60 minutes and a
  departure that is the train's base departure minute plus that delay. The base departure is
  the scheduled departure in whole minutes since the epoch, as the method computes it; for
  a train scheduled on a whole minute the returned departure is the scheduled departure
  plus the delay.
\<close>

theorem optimize_schedule_delay_bounds:
  assumes wf: "engine_wf e" and solver: "solver_ok Solve e"
    and st: "result_status (optimize_schedule Solve e) = ''optimal''
             \<or> result_status (optimize_schedule Solve e) = ''feasible''"
  shows "map fst (result_solution (optimize_schedule Solve e)) = map fst (trains e)
         \<and> (\<forall>(k, t) \<in> set (trains e).
              \<exists>entry. map_of (result_solution (optimize_schedule Solve e)) k = Some entry
                \<and> 0 \<le> delay_minutes entry \<and> delay_minutes entry \<le> 60
                \<and> departure_time entry
                    = of_int (base_departure_of t + delay_minutes entry) * 60
                \<and> (whole_minutes (scheduled_departure t) \<longrightarrow>
                      departure_time entry
                        = scheduled_departure t + of_int (delay_minutes entry) * 60))"
proof -
  let ?sol = "result_solution (optimize_schedule Solve e)"
  have d: "distinct (map fst (trains e))" using wf by (simp add: engine_wf_def)
  from optimize_schedule_solved [OF st] obtain built where
    built: "build_model e = Inr built"
    and status: "fst (Solve (fst built)) = OPTIMAL \<or> fst (Solve (fst built)) = FEASIBLE"
    and ex: "extract_solution (map fst (trains e)) (snd built) (snd (Solve (fst built))) = Inr ?sol"
    by blast
  let ?v = "snd (Solve (fst built))"
  have sat: "satisfies (fst built) ?v"
    using solver built status by (auto simp: solver_ok_def solver_contract_def)
  have one: "\<exists>entry. map_of ?sol k = Some entry
                \<and> 0 \<le> delay_minutes entry \<and> delay_minutes entry \<le> 60
                \<and> departure_time entry = of_int (base_departure_of t + delay_minutes entry) * 60
                \<and> (whole_minutes (scheduled_departure t) \<longrightarrow>
                      departure_time entry
                        = scheduled_departure t + of_int (delay_minutes entry) * 60)"
    if kt: "(k, t) \<in> set (trains e)" for k t
  proof -
    from solved_entry [OF built d ex kt] obtain dv av lv where
      h: "lv < length (variables (fst built))"
         "lb (variables (fst built) ! lv) = 0" "ub (variables (fst built) ! lv) = 60"
         "LinEq lv dv (base_departure_of t) \<in> set (constraints (fst built))"
         "map_of ?sol k = Some \<lparr>departure_time = of_int (?v dv) * 60,
                                 arrival_time = of_int (?v av) * 60,
                                 delay_minutes = ?v lv\<rparr>"
      by blast
    from satisfies_bounds [OF sat h(1)] h(2,3) have b: "0 \<le> ?v lv" "?v lv \<le> 60" by simp_all
    from satisfies_holds [OF sat h(4)] have "?v lv = ?v dv - base_departure_of t" by simp
    then have "?v dv = base_departure_of t + ?v lv" by simp
    with b h(5) show ?thesis
      by (auto simp: algebra_simps dest: base_departure_whole_minutes)
  qed
  have "map fst ?sol = map fst (trains e)" by (rule extract_solution_sound(1) [OF ex])
  with one show ?thesis by blast
qed

lemma build_model_objective_ok:
  assumes built: "build_model e = Inr built" and d: "distinct (map fst (trains e))"
    and pos: "priorities_positive e"
  shows "objective_ok (fst built)"
proof -
  have "fst term < length (variables (fst built))
        \<and> lb (variables (fst built) ! fst term) = 0 \<and> 0 < snd term"
    if "term \<in> set (objective (fst built))" for "term"
  proof -
    from objective_terms_sound [OF build_model_sound(3) [OF built d] that]
    obtain item where item: "item \<in> set (trains e)"
      "map_of (train_delays (snd built)) (fst item) = Some (fst term)"
      "snd term = 1 / of_int (priority (snd item))" by blast
    have "(fst item, snd item) \<in> set (trains e)" using item(1) by simp
    from build_model_sound(2) [OF built d this] item(2)
    have "fst term < length (variables (fst built))" "lb (variables (fst built) ! fst term) = 0"
      by (auto simp: train_declared_def)
    moreover have "0 < priority (snd item)"
      using pos item(1) by (simp add: priorities_positive_def list_all_iff)
    ultimately show ?thesis using item(3) by simp
  qed
  then show ?thesis by (simp add: objective_ok_def list_all_iff)
qed

lemma sum_list_all_zero:
  fixes f :: "'a \<Rightarrow> rat"
  assumes "\<And>x. x \<in> set xs \<Longrightarrow> f x = 0"
  shows "sum_list (map f xs) = 0"
  using assms by (induction xs) simp_all

lemma sum_list_zero_term:
  fixes f :: "'a \<Rightarrow> rat"
  assumes "\<And>x. x \<in> set xs \<Longrightarrow> 0 \<le> f x" and "sum_list (map f xs) = 0" and "y \<in> set xs"
  shows "f y = 0"
  using assms
proof (induction xs)
  case Nil
  then show ?case by simp
next
  case (Cons x xs)
  have nn: "0 \<le> f x" using Cons.prems(1) by simp
  have "\<And>z. z \<in> set (map f xs) \<Longrightarrow> 0 \<le> z" using Cons.prems(1) by auto
  then have nn': "0 \<le> sum_list (map f xs)" by (rule sum_list_nonneg)
  from Cons.prems(2) nn nn' have z: "f x = 0" "sum_list (map f xs) = 0"
    by (simp_all add: add_nonneg_eq_0_iff)
  show ?case
  proof (cases "y = x")
    case True
    with z show ?thesis by simp
  next
    case False
    with Cons.prems(3) have "y \<in> set xs" by simp
    with Cons.IH [OF _ z(2)] Cons.prems(1) show ?thesis by simp
  qed
qed

lemma objective_lower_bounds:
  assumes "objective_ok m"
  shows "objective_value m (lower_bounds m) = 0"
proof -
  have "snd term * of_int (lower_bounds m (fst term)) = 0" if "term \<in> set (objective m)" for "term"
    using assms that by (simp add: objective_ok_def list_all_iff lower_bounds_def)
  then show ?thesis unfolding objective_value_def by (rule sum_list_all_zero)
qed

lemma objective_term_nonneg:
  assumes "objective_ok m" and "satisfies m Value" and "term \<in> set (objective m)"
  shows "0 \<le> snd term * rat_of_int (Value (fst term))"
proof -
  from assms(1,3) have h: "fst term < length (variables m)"
    "lb (variables m ! fst term) = 0" "0 < snd term"
    by (simp_all add: objective_ok_def list_all_iff)
  from satisfies_bounds(1) [OF assms(2) h(1)] h(2) have "0 \<le> Value (fst term)" by simp
  with h(3) show ?thesis by simp
qed

lemma objective_nonneg:
  assumes "objective_ok m" and "satisfies m Value"
  shows "0 \<le> objective_value m Value"
  unfolding objective_value_def
  by (rule sum_list_nonneg) (auto dest: objective_term_nonneg [OF assms])

lemma lower_bound_solver_contract:
  assumes "model_ok m" and "objective_ok m"
  shows "solver_contract m (lower_bound_solver m)"
  using lower_bounds_satisfy [OF assms(1)] objective_lower_bounds [OF assms(2)]
    objective_nonneg [OF assms(2)]
  by (simp add: solver_contract_def lower_bound_solver_def)

lemma lower_bound_solver_ok:
  assumes "distinct (map fst (trains e))" and "priorities_positive e"
  shows "solver_ok lower_bound_solver e"
proof (cases "build_model e")
  case (Inl err)
  then show ?thesis by (simp add: solver_ok_def)
next
  case (Inr built)
  from lower_bound_solver_contract [OF build_model_sound(1) [OF Inr assms(1)]
      build_model_objective_ok [OF Inr assms]]
  show ?thesis by (simp add: solver_ok_def Inr)
qed

lemma optimal_terms_zero:
  assumes ok: "model_ok m" and obj: "objective_ok m" and sat: "satisfies m Value"
    and opt: "\<And>Value'. satisfies m Value' \<Longrightarrow> objective_value m Value \<le> objective_value m Value'"
    and t: "term \<in> set (objective m)"
  shows "Value (fst term) = 0"
proof -
  let ?f = "\<lambda>term. snd term * rat_of_int (Value (fst term))"
  have "objective_value m Value \<le> 0"
    using opt [OF lower_bounds_satisfy [OF ok]] objective_lower_bounds [OF obj] by simp
  with objective_nonneg [OF obj sat] have zero: "sum_list (map ?f (objective m)) = 0"
    by (simp add: objective_value_def)
  have "?f term = 0"
    by (rule sum_list_zero_term [OF objective_term_nonneg [OF obj sat] zero t])
  moreover have "0 < snd term" using obj t by (simp add: objective_ok_def list_all_iff)
  ultimately show ?thesis by simp
qed

lemma optimal_schedule_is_timetable:
  assumes wf: "engine_wf e" and pos: "priorities_positive e" and solver: "solver_ok Solve e"
    and st: "result_status (optimize_schedule Solve e) = ''optimal''"
    and kt: "(k, t) \<in> set (trains e)"
  shows "\<exists>entry. map_of (result_solution (optimize_schedule Solve e)) k = Some entry
           \<and> delay_minutes entry = 0
           \<and> departure_time entry = of_int (base_departure_of t) * 60"
proof -
  let ?sol = "result_solution (optimize_schedule Solve e)"
  have d: "distinct (map fst (trains e))" using wf by (simp add: engine_wf_def)
  from optimize_schedule_solved [of Solve e] st obtain built where
    built: "build_model e = Inr built"
    and status: "fst (Solve (fst built)) = OPTIMAL"
    and ex: "extract_solution (map fst (trains e)) (snd built) (snd (Solve (fst built))) = Inr ?sol"
    by blast
  let ?m = "fst built" and ?v = "snd (Solve (fst built))"
  have sat: "satisfies ?m ?v"
    and opt: "\<And>Value'. satisfies ?m Value' \<Longrightarrow> objective_value ?m ?v \<le> objective_value ?m Value'"
    using solver built status by (auto simp: solver_ok_def solver_contract_def)
  from solved_entry [OF built d ex kt] obtain dv av lv where
    h: "map_of (train_delays (snd built)) k = Some lv"
       "LinEq lv dv (base_departure_of t) \<in> set (constraints ?m)"
       "map_of ?sol k = Some \<lparr>departure_time = of_int (?v dv) * 60,
                               arrival_time = of_int (?v av) * 60,
                               delay_minutes = ?v lv\<rparr>"
    by blast
  from objective_terms_complete [OF build_model_sound(3) [OF built d] kt] h(1)
  have "(lv, 1 / of_int (priority t)) \<in> set (objective ?m)" by simp
  from optimal_terms_zero [OF build_model_sound(1) [OF built d]
      build_model_objective_ok [OF built d pos] sat opt this]
  have zero: "?v lv = 0" by simp
  from satisfies_holds [OF sat h(2)] zero have "?v dv = base_departure_of t" by simp
  with zero h(3) show ?thesis by simp
qed

lemma mumbai_detected_trains:
  "trains mumbai_detected = [(''train_1'', mumbai_express), (''train_2'', mumbai_local)]"
  by (simp add: mumbai_detected_def detect_conflicts_returns [OF mumbai_wf(2)] mumbai_trains)

lemma mumbai_detected_conflicts:
  "conflicts mumbai_detected =
     [\<lparr>train1_id = ''train_1'', train2_id = ''train_2'', section_id = ''Mumbai Central'',
       conflict_type = ''headway'', severity = 1,
       resolution_options =
         [Resolution ''delay_train'' ''train_1'' (Some 2), Resolution ''delay_train'' ''train_2'' (Some 2),
          Resolution ''reroute_train'' ''train_1'' None, Resolution ''reroute_train'' ''train_2'' None]\<rparr>]"
  by (simp add: mumbai_detected_def detect_conflicts_def mumbai_trains check_pair_def
      check_headway_conflict_def check_platform_conflict_def min_headway_of_def append_if_found_def
      mumbai_express_def mumbai_local_def)

lemma mumbai_detected_ok:
  "engine_wf mumbai_detected" "priorities_positive mumbai_detected"
  by (simp_all add: engine_wf_def priorities_positive_def mumbai_detected_trains)
     (simp_all add: mumbai_express_def mumbai_local_def)

lemma mumbai_base:
  "base_departure_of mumbai_express = 600" "base_departure_of mumbai_local = 600"
  "base_arrival_of mumbai_express = 1560" "base_arrival_of mumbai_local = 690"
  by (simp_all add: base_departure_of_def base_arrival_of_def py_int_def mumbai_express_def mumbai_local_def)

lemma mumbai_optimized:
  "optimize_schedule lower_bound_solver mumbai_detected =
     Solved ''optimal''
       [(''train_1'', \<lparr>departure_time = 36000, arrival_time = 93600, delay_minutes = 0\<rparr>),
        (''train_2'', \<lparr>departure_time = 36000, arrival_time = 41400, delay_minutes = 0\<rparr>)] 0 1"
  by (simp add: optimize_schedule_def build_model_def mumbai_detected_trains mumbai_detected_conflicts
      declare_train_def add_headway_def NewIntVar_def NewBoolVar_def Add_def Minimize_def
      CpModel_init_def no_vars_def Let_def mumbai_base lower_bound_solver_def lower_bounds_def
      min_headway_minutes_def nth_append)
    (simp add: mumbai_express_def mumbai_local_def)

lemma mumbai_model:
  "build_model mumbai_detected =
     Inr (\<lparr>variables =
             [\<lparr>lb = 600, ub = 660, var_name = ''departure_train_1''\<rparr>,
              \<lparr>lb = 1560, ub = 1620, var_name = ''arrival_train_1''\<rparr>,
              \<lparr>lb = 0, ub = 60, var_name = ''delay_train_1''\<rparr>,
              \<lparr>lb = 600, ub = 660, var_name = ''departure_train_2''\<rparr>,
              \<lparr>lb = 690, ub = 750, var_name = ''arrival_train_2''\<rparr>,
              \<lparr>lb = 0, ub = 60, var_name = ''delay_train_2''\<rparr>,
              \<lparr>lb = 0, ub = 1, var_name = ''train1_first_train_1_train_2''\<rparr>,
              \<lparr>lb = 0, ub = 1, var_name = ''train2_first_train_1_train_2''\<rparr>],
           constraints = [LinEq 2 0 600, LinEq 5 3 600, LinLeIf 0 5 3 6, LinLeIf 3 5 0 7],
           objective = [(2, 1 / 9), (5, 1 / 5)]\<rparr>,
          \<lparr>train_departures = [(''train_1'', 0), (''train_2'', 3)],
           train_arrivals = [(''train_1'', 1), (''train_2'', 4)],
           train_delays = [(''train_1'', 2), (''train_2'', 5)]\<rparr>)"
  by (simp add: build_model_def mumbai_detected_trains mumbai_detected_conflicts
      declare_train_def add_headway_def NewIntVar_def NewBoolVar_def Add_def Minimize_def
      CpModel_init_def no_vars_def Let_def mumbai_base min_headway_minutes_def)
    (simp add: mumbai_express_def mumbai_local_def)

lemma delaying_solver_ok: "solver_ok delaying_solver mumbai_detected"
  by (simp add: solver_ok_def mumbai_model solver_contract_def delaying_solver_def satisfies_def
      within_bounds_def eval_nat_numeral All_less_Suc)

lemma mumbai_delayed:
  "optimize_schedule delaying_solver mumbai_detected =
     Solved ''feasible''
       [(''train_1'', \<lparr>departure_time = 36000, arrival_time = 93600, delay_minutes = 0\<rparr>),
        (''train_2'', \<lparr>departure_time = 36300, arrival_time = 41400, delay_minutes = 5\<rparr>)] 5 1"
  by (simp add: optimize_schedule_def mumbai_model mumbai_detected_trains mumbai_detected_conflicts
      delaying_solver_def Let_def)

theorem optimize_schedule_delay_bounds_witness:
  "engine_wf mumbai_detected \<and> solver_ok delaying_solver mumbai_detected
   \<and> result_status (optimize_schedule delaying_solver mumbai_detected) = ''feasible''
   \<and> map fst (result_solution (optimize_schedule delaying_solver mumbai_detected))
       = [''train_1'', ''train_2'']
   \<and> map_of (result_solution (optimize_schedule delaying_solver mumbai_detected)) ''train_2''
       = Some \<lparr>departure_time = 36300, arrival_time = 41400, delay_minutes = 5\<rparr>
   \<and> (36300 :: rat) = of_int (base_departure_of mumbai_local + 5) * 60
   \<and> whole_minutes (scheduled_departure mumbai_local)
   \<and> (36300 :: rat) = scheduled_departure mumbai_local + of_int 5 * 60"
proof -
  have whole: "whole_minutes (scheduled_departure mumbai_local)"
    "(36300 :: rat) = scheduled_departure mumbai_local + of_int 5 * 60"
    by (simp_all add: whole_minutes_def mumbai_local_def)
  have st: "result_status (optimize_schedule delaying_solver mumbai_detected) = ''optimal''
            \<or> result_status (optimize_schedule delaying_solver mumbai_detected) = ''feasible''"
    by (simp add: mumbai_delayed)
  from optimize_schedule_delay_bounds [OF mumbai_detected_ok(1) delaying_solver_ok st]
  have "map fst (result_solution (optimize_schedule delaying_solver mumbai_detected))
          = map fst (trains mumbai_detected)" by blast
  then show ?thesis
    using mumbai_detected_ok(1) delaying_solver_ok whole
    by (simp add: mumbai_delayed mumbai_detected_trains mumbai_base)
qed

text \<open>
  Claim C1. The two inequalities of a headway conflict are each guarded by a Boolean of
  their own that nothing ties to the other, so the solver may leave both unenforced, and with
  positive delay weights the least-cost schedule is the unchanged timetable. Whenever
  \<open>optimize_schedule\<close> reports "optimal", a headway conflict between two trains whose base
  departure minutes are less than 5 apart is therefore violated by the returned schedule.
\<close>

theorem optimal_schedule_breaks_headway:
  assumes wf: "engine_wf e" and pos: "priorities_positive e" and solver: "solver_ok Solve e"
    and st: "result_status (optimize_schedule Solve e) = ''optimal''"
    and c: "c \<in> set (conflicts e)" "conflict_type c = ''headway''"
    and t1: "(train1_id c, t1) \<in> set (trains e)" and t2: "(train2_id c, t2) \<in> set (trains e)"
    and close: "\<bar>base_departure_of t1 - base_departure_of t2\<bar> < 5"
  shows "\<not> headway_respected (result_solution (optimize_schedule Solve e)) c"
proof -
  from optimal_schedule_is_timetable [OF wf pos solver st t1] obtain entry1 where
    e1: "map_of (result_solution (optimize_schedule Solve e)) (train1_id c) = Some entry1"
        "departure_time entry1 = of_int (base_departure_of t1) * 60" by blast
  from optimal_schedule_is_timetable [OF wf pos solver st t2] obtain entry2 where
    e2: "map_of (result_solution (optimize_schedule Solve e)) (train2_id c) = Some entry2"
        "departure_time entry2 = of_int (base_departure_of t2) * 60" by blast
  have "\<not> (rat_of_int (base_departure_of t1) * 60 + 5 * 60 \<le> rat_of_int (base_departure_of t2) * 60)"
    "\<not> (rat_of_int (base_departure_of t2) * 60 + 5 * 60 \<le> rat_of_int (base_departure_of t1) * 60)"
  proof -
    have a: "base_departure_of t2 < base_departure_of t1 + 5"
      and b: "base_departure_of t1 < base_departure_of t2 + 5" using close by linarith+
    from a have "rat_of_int (base_departure_of t2) < rat_of_int (base_departure_of t1 + 5)"
      by (simp only: of_int_less_iff)
    then show "\<not> (rat_of_int (base_departure_of t1) * 60 + 5 * 60 \<le> rat_of_int (base_departure_of t2) * 60)"
      by simp
    from b have "rat_of_int (base_departure_of t1) < rat_of_int (base_departure_of t2 + 5)"
      by (simp only: of_int_less_iff)
    then show "\<not> (rat_of_int (base_departure_of t2) * 60 + 5 * 60 \<le> rat_of_int (base_departure_of t1) * 60)"
      by simp
  qed
  with e1 e2 show ?thesis by (simp add: headway_respected_def)
qed

theorem optimal_schedule_breaks_headway_witness:
  "engine_wf mumbai_detected \<and> priorities_positive mumbai_detected
   \<and> solver_ok lower_bound_solver mumbai_detected
   \<and> optimize_schedule lower_bound_solver mumbai_detected =
       Solved ''optimal''
         [(''train_1'', \<lparr>departure_time = 36000, arrival_time = 93600, delay_minutes = 0\<rparr>),
          (''train_2'', \<lparr>departure_time = 36000, arrival_time = 41400, delay_minutes = 0\<rparr>)] 0 1
   \<and> map conflict_type (conflicts mumbai_detected) = [''headway'']
   \<and> \<not> headway_respected (result_solution (optimize_schedule lower_bound_solver mumbai_detected))
         (hd (conflicts mumbai_detected))"
proof -
  let ?c = "hd (conflicts mumbai_detected)"
  have ok: "solver_ok lower_bound_solver mumbai_detected"
    using mumbai_detected_ok by (intro lower_bound_solver_ok) (simp_all add: engine_wf_def)
  have st: "result_status (optimize_schedule lower_bound_solver mumbai_detected) = ''optimal''"
    by (simp add: mumbai_optimized)
  have c: "?c \<in> set (conflicts mumbai_detected)" "conflict_type ?c = ''headway''"
    "(train1_id ?c, mumbai_express) \<in> set (trains mumbai_detected)"
    "(train2_id ?c, mumbai_local) \<in> set (trains mumbai_detected)"
    "\<bar>base_departure_of mumbai_express - base_departure_of mumbai_local\<bar> < 5"
    by (simp_all add: mumbai_detected_conflicts mumbai_detected_trains mumbai_base)
  from optimal_schedule_breaks_headway [OF mumbai_detected_ok ok st c]
  show ?thesis using mumbai_detected_ok ok
    by (simp add: mumbai_optimized mumbai_detected_conflicts)
qed

section \<open>Platform conflicts and the optimizer\<close>

lemma add_conflict_constraints_filter:
  "add_conflict_constraints (filter (\<lambda>c. conflict_type c = ''headway'') cs) vars m
   = add_conflict_constraints cs vars m"
proof (induction cs arbitrary: m)
  case Nil
  show ?case by simp
next
  case (Cons c rest)
  show ?case
  proof (cases "conflict_type c = ''headway''")
    case True
    then show ?thesis using Cons.IH by (simp split: sum.splits)
  next
    case False
    then show ?thesis using Cons.IH by simp
  qed
qed

lemma build_model_headway_only: "build_model (headway_only e) = build_model e"
  by (simp add: build_model_def headway_only_def add_conflict_constraints_filter Let_def
      cong: sum.case_cong)

text \<open>
  Claim C6, as amended. Removing the platform conflicts changes nothing in the model that
  is solved, and so nothing in the status, the schedule, the total delay or the error of
  the result; the count \<^verbatim>\<open>conflicts_resolved\<close> (and \<^verbatim>\<open>conflicts\<close> of an infeasible
  result) is the length of the whole conflict list and so still counts them.
\<close>

theorem optimize_schedule_headway_only:
  "build_model (headway_only e) = build_model e
   \<and> optimize_schedule Solve e
       = with_conflict_count (length (conflicts e)) (optimize_schedule Solve (headway_only e))
   \<and> result_status (optimize_schedule Solve (headway_only e))
       = result_status (optimize_schedule Solve e)
   \<and> result_solution (optimize_schedule Solve (headway_only e))
       = result_solution (optimize_schedule Solve e)"
proof -
  have t: "trains (headway_only e) = trains e" by (simp add: headway_only_def)
  have eq: "optimize_schedule Solve e
       = with_conflict_count (length (conflicts e)) (optimize_schedule Solve (headway_only e))"
    by (simp add: optimize_schedule_def build_model_headway_only t Let_def
        split: sum.splits)
  have "result_status (with_conflict_count n r) = result_status r
        \<and> result_solution (with_conflict_count n r) = result_solution r" for n r
    by (cases r) simp_all
  with eq build_model_headway_only show ?thesis by simp
qed

lemma delhi_detected_trains:
  "trains delhi_detected
     = [(''train_1'', delhi_rajdhani), (''train_2'', delhi_shatabdi), (''train_3'', delhi_duronto)]"
  by (simp add: delhi_detected_def detect_conflicts_returns [OF delhi_wf(2)] delhi_trains)

lemma delhi_detected_conflicts:
  "conflicts delhi_detected =
     [\<lparr>train1_id = ''train_1'', train2_id = ''train_2'', section_id = ''New Delhi'',
       conflict_type = ''platform'', severity = 0.8,
       resolution_options =
         [Resolution ''delay_train'' ''train_1'' (Some 10), Resolution ''delay_train'' ''train_2'' (Some 10),
          Resolution ''change_platform'' ''train_1'' None, Resolution ''change_platform'' ''train_2'' None]\<rparr>,
      \<lparr>train1_id = ''train_2'', train2_id = ''train_3'', section_id = ''New Delhi'',
       conflict_type = ''platform'', severity = 0.8,
       resolution_options =
         [Resolution ''delay_train'' ''train_2'' (Some 10), Resolution ''delay_train'' ''train_3'' (Some 10),
          Resolution ''change_platform'' ''train_2'' None, Resolution ''change_platform'' ''train_3'' None]\<rparr>]"
  by (simp add: delhi_detected_def detect_conflicts_def delhi_trains check_pair_def
      check_headway_conflict_def check_platform_conflict_def append_if_found_def
      delhi_rajdhani_def delhi_shatabdi_def delhi_duronto_def)

lemma delhi_counts:
  "length (conflicts delhi_detected) = 2" "conflicts (headway_only delhi_detected) = []"
  by (simp_all add: headway_only_def delhi_detected_conflicts)

lemma delhi_base:
  "base_departure_of delhi_rajdhani = 600" "base_departure_of delhi_shatabdi = 1000"
  "base_departure_of delhi_duronto = 500"
  "base_arrival_of delhi_rajdhani = 1560" "base_arrival_of delhi_shatabdi = 1564"
  "base_arrival_of delhi_duronto = 1565"
  by (simp_all add: base_departure_of_def base_arrival_of_def py_int_def floor_eq_iff
      delhi_rajdhani_def delhi_shatabdi_def delhi_duronto_def)

lemma delhi_headway_only_optimized:
  "optimize_schedule lower_bound_solver (headway_only delhi_detected) =
     Solved ''optimal''
       [(''train_1'', \<lparr>departure_time = 36000, arrival_time = 93600, delay_minutes = 0\<rparr>),
        (''train_2'', \<lparr>departure_time = 60000, arrival_time = 93840, delay_minutes = 0\<rparr>),
        (''train_3'', \<lparr>departure_time = 30000, arrival_time = 93900, delay_minutes = 0\<rparr>)] 0 0"
proof -
  have t: "trains (headway_only delhi_detected) = trains delhi_detected"
    by (simp add: headway_only_def)
  show ?thesis
    by (simp add: optimize_schedule_def build_model_def t delhi_detected_trains delhi_counts(2)
      declare_train_def NewIntVar_def Add_def Minimize_def
      CpModel_init_def no_vars_def Let_def delhi_base lower_bound_solver_def lower_bounds_def
      nth_append)
     (simp add: delhi_rajdhani_def delhi_shatabdi_def delhi_duronto_def)
qed

theorem optimize_schedule_headway_only_witness:
  "optimize_schedule lower_bound_solver delhi_detected =
     Solved ''optimal''
       [(''train_1'', \<lparr>departure_time = 36000, arrival_time = 93600, delay_minutes = 0\<rparr>),
        (''train_2'', \<lparr>departure_time = 60000, arrival_time = 93840, delay_minutes = 0\<rparr>),
        (''train_3'', \<lparr>departure_time = 30000, arrival_time = 93900, delay_minutes = 0\<rparr>)] 0 2"
proof -
  have "optimize_schedule lower_bound_solver delhi_detected
        = with_conflict_count (length (conflicts delhi_detected))
            (optimize_schedule lower_bound_solver (headway_only delhi_detected))"
    by (rule conjunct1 [OF conjunct2 [OF optimize_schedule_headway_only]])
  then show ?thesis
    by (simp only: delhi_headway_only_optimized delhi_counts(1) with_conflict_count.simps)
qed

text \<open>
  Claim C6 fails as stated: with the two platform conflicts of the New Delhi trains in the
  list the result counts 2 conflicts, without them 0, so the two results differ.
\<close>

theorem optimize_schedule_headway_only_counterexample:
  "optimize_schedule lower_bound_solver delhi_detected
     \<noteq> optimize_schedule lower_bound_solver (headway_only delhi_detected)"
proof -
  have t: "trains (headway_only delhi_detected) = trains delhi_detected"
    by (simp add: headway_only_def)
  have b: "build_model delhi_detected = build_model (headway_only delhi_detected)"
    by (simp only: build_model_headway_only)
  have "optimize_schedule lower_bound_solver delhi_detected
        = with_conflict_count (length (conflicts delhi_detected))
            (optimize_schedule lower_bound_solver (headway_only delhi_detected))"
    by (simp add: optimize_schedule_def b t Let_def split: sum.splits)
  then have full: "optimize_schedule lower_bound_solver delhi_detected =
     Solved ''optimal''
       [(''train_1'', \<lparr>departure_time = 36000, arrival_time = 93600, delay_minutes = 0\<rparr>),
        (''train_2'', \<lparr>departure_time = 60000, arrival_time = 93840, delay_minutes = 0\<rparr>),
        (''train_3'', \<lparr>departure_time = 30000, arrival_time = 93900, delay_minutes = 0\<rparr>)] 0 2"
    by (simp only: delhi_headway_only_optimized delhi_counts(1) with_conflict_count.simps)
  show ?thesis by (simp add: full delhi_headway_only_optimized)
qed

section \<open>The five-train scenario\<close>

lemma fleet_trains:
  "trains fleet_engine = map (\<lambda>train. (id_train train, train)) fleet"
  by (simp add: fleet_engine_def fleet_def add_train_def init_engine_def fleet_train_def)

lemma fleet_priorities: "map (\<lambda>item. priority (snd item)) (trains fleet_engine) = [8, 5, 6, 9, 10]"
  by (simp add: fleet_trains fleet_def fleet_train_def)

lemma fleet_wf: "engine_wf fleet_engine" "speeds_nonzero fleet_engine"
  by (simp_all add: engine_wf_def speeds_nonzero_def fleet_trains fleet_def fleet_train_def)

lemma fleet_detected_trains: "trains fleet_detected = trains fleet_engine"
  by (simp add: fleet_detected_def detect_conflicts_returns [OF fleet_wf(2)])

lemma fleet_detected_conflicts:
  "conflicts fleet_detected =
     [\<lparr>train1_id = ''train_2'', train2_id = ''train_4'', section_id = ''Mumbai Central'',
       conflict_type = ''headway'', severity = 1,
       resolution_options =
         [Resolution ''delay_train'' ''train_2'' (Some 2), Resolution ''delay_train'' ''train_4'' (Some 2),
          Resolution ''reroute_train'' ''train_2'' None, Resolution ''reroute_train'' ''train_4'' None]\<rparr>]"
  by (simp add: fleet_detected_def detect_conflicts_def fleet_trains fleet_def fleet_train_def
      check_pair_def check_headway_conflict_def check_platform_conflict_def min_headway_of_def
      append_if_found_def)

lemma fleet_detected_ok: "engine_wf fleet_detected" "priorities_positive fleet_detected"
  using fleet_wf(1)
  by (simp_all add: engine_wf_def priorities_positive_def fleet_detected_trains)
     (simp add: fleet_trains fleet_def fleet_train_def)

lemma fleet_model:
  "build_model fleet_detected =
     Inr (\<lparr>variables =
             [\<lparr>lb = 600, ub = 660, var_name = ''departure_train_1''\<rparr>,
              \<lparr>lb = 1200, ub = 1260, var_name = ''arrival_train_1''\<rparr>,
              \<lparr>lb = 0, ub = 60, var_name = ''delay_train_1''\<rparr>,
              \<lparr>lb = 600, ub = 660, var_name = ''departure_train_2''\<rparr>,
              \<lparr>lb = 840, ub = 900, var_name = ''arrival_train_2''\<rparr>,
              \<lparr>lb = 0, ub = 60, var_name = ''delay_train_2''\<rparr>,
              \<lparr>lb = 600, ub = 660, var_name = ''departure_train_3''\<rparr>,
              \<lparr>lb = 720, ub = 780, var_name = ''arrival_train_3''\<rparr>,
              \<lparr>lb = 0, ub = 60, var_name = ''delay_train_3''\<rparr>,
              \<lparr>lb = 600, ub = 660, var_name = ''departure_train_4''\<rparr>,
              \<lparr>lb = 1560, ub = 1620, var_name = ''arrival_train_4''\<rparr>,
              \<lparr>lb = 0, ub = 60, var_name = ''delay_train_4''\<rparr>,
              \<lparr>lb = 600, ub = 660, var_name = ''departure_train_5''\<rparr>,
              \<lparr>lb = 1800, ub = 1860, var_name = ''arrival_train_5''\<rparr>,
              \<lparr>lb = 0, ub = 60, var_name = ''delay_train_5''\<rparr>,
              \<lparr>lb = 0, ub = 1, var_name = ''train1_first_train_2_train_4''\<rparr>,
              \<lparr>lb = 0, ub = 1, var_name = ''train2_first_train_2_train_4''\<rparr>],
           constraints = [LinEq 2 0 600, LinEq 5 3 600, LinEq 8 6 600, LinEq 11 9 600,
                          LinEq 14 12 600, LinLeIf 3 5 9 15, LinLeIf 9 5 3 16],
           objective = [(2, 1 / 8), (5, 1 / 5), (8, 1 / 6), (11, 1 / 9), (14, 1 / 10)]\<rparr>,
          \<lparr>train_departures = [(''train_1'', 0), (''train_2'', 3), (''train_3'', 6),
                               (''train_4'', 9), (''train_5'', 12)],
           train_arrivals = [(''train_1'', 1), (''train_2'', 4), (''train_3'', 7),
                             (''train_4'', 10), (''train_5'', 13)],
           train_delays = [(''train_1'', 2), (''train_2'', 5), (''train_3'', 8),
                           (''train_4'', 11), (''train_5'', 14)]\<rparr>)"
  by (simp add: build_model_def fleet_detected_trains fleet_trains fleet_detected_conflicts
      declare_train_def add_headway_def NewIntVar_def NewBoolVar_def Add_def Minimize_def
      CpModel_init_def no_vars_def Let_def min_headway_minutes_def fleet_def fleet_train_def
      base_departure_of_def base_arrival_of_def py_int_def)

lemma fleet_single_sided:
  "satisfies fleet_model_of delay_priority_5" "satisfies fleet_model_of delay_priority_9"
  "objective_value fleet_model_of delay_priority_5 = 1"
  "objective_value fleet_model_of delay_priority_9 = 5 / 9"
  by (simp_all add: fleet_model_of_def fleet_model satisfies_def within_bounds_def
      objective_value_def delay_priority_5_def delay_priority_9_def eval_nat_numeral All_less_Suc)

lemma fleet_optimized:
  "optimize_schedule lower_bound_solver fleet_detected =
     Solved ''optimal''
       [(''train_1'', \<lparr>departure_time = 36000, arrival_time = 72000, delay_minutes = 0\<rparr>),
        (''train_2'', \<lparr>departure_time = 36000, arrival_time = 50400, delay_minutes = 0\<rparr>),
        (''train_3'', \<lparr>departure_time = 36000, arrival_time = 43200, delay_minutes = 0\<rparr>),
        (''train_4'', \<lparr>departure_time = 36000, arrival_time = 93600, delay_minutes = 0\<rparr>),
        (''train_5'', \<lparr>departure_time = 36000, arrival_time = 108000, delay_minutes = 0\<rparr>)] 0 1"
  by (simp add: optimize_schedule_def fleet_model Let_def lower_bound_solver_def lower_bounds_def
      fleet_detected_trains fleet_trains fleet_detected_conflicts)
     (simp add: fleet_def fleet_train_def lower_bounds_def fleet_detected_conflicts)

lemma fleet_solver_ok: "solver_ok lower_bound_solver fleet_detected"
  using fleet_detected_ok by (intro lower_bound_solver_ok) (simp_all add: engine_wf_def)

text \<open>
  Claim C5 fails on the code. In the scenario a single-sided delay of the priority-5 train
  is feasible, yet the optimal schedule gives that train no delay.
\<close>

theorem fleet_delay_counterexample:
  "map (\<lambda>item. priority (snd item)) (trains fleet_detected) = [8, 5, 6, 9, 10]
   \<and> map (\<lambda>c. (conflict_type c, train1_id c, train2_id c)) (conflicts fleet_detected)
       = [(''headway'', ''train_2'', ''train_4'')]
   \<and> satisfies fleet_model_of delay_priority_5
   \<and> solver_ok lower_bound_solver fleet_detected
   \<and> result_status (optimize_schedule lower_bound_solver fleet_detected) = ''optimal''
   \<and> \<not> spec_absorbs_all_delay
         (result_solution (optimize_schedule lower_bound_solver fleet_detected)) ''train_2''"
  using fleet_single_sided(1) fleet_solver_ok
  by (simp add: fleet_detected_trains fleet_priorities fleet_detected_conflicts fleet_optimized
      spec_absorbs_all_delay_def)

text \<open>
  Claim C5, as amended. For the fleet of the scenario the objective charges each minute of
  delay \<open>1 / priority\<close>: resolving the conflict by delaying only the priority-5 train by
  5 minutes costs 1, by delaying only the priority-9 train costs 5/9. A result reported
  "optimal" never has all the delay on the priority-5 train.
\<close>

theorem fleet_optimum_spares_priority_5:
  assumes solver: "solver_ok Solve fleet_detected"
    and st: "result_status (optimize_schedule Solve fleet_detected) = ''optimal''"
  shows "map snd (objective fleet_model_of) = [1 / 8, 1 / 5, 1 / 6, 1 / 9, 1 / 10]
         \<and> satisfies fleet_model_of delay_priority_5
         \<and> satisfies fleet_model_of delay_priority_9
         \<and> objective_value fleet_model_of delay_priority_9
             < objective_value fleet_model_of delay_priority_5
         \<and> \<not> spec_absorbs_all_delay
               (result_solution (optimize_schedule Solve fleet_detected)) ''train_2''"
proof -
  have "(''train_2'', fleet_train ''train_2'' 5 ''Mumbai Central'' ''Surat'' 36000 50400)
          \<in> set (trains fleet_detected)"
    by (simp add: fleet_detected_trains fleet_trains fleet_def fleet_train_def)
  from optimal_schedule_is_timetable [OF fleet_detected_ok solver st this]
  have "\<not> spec_absorbs_all_delay (result_solution (optimize_schedule Solve fleet_detected)) ''train_2''"
    by (auto simp: spec_absorbs_all_delay_def)
  moreover have "map snd (objective fleet_model_of) = [1 / 8, 1 / 5, 1 / 6, 1 / 9, 1 / 10]"
    by (simp add: fleet_model_of_def fleet_model)
  ultimately show ?thesis using fleet_single_sided by simp
qed

theorem fleet_optimum_spares_priority_5_witness:
  "solver_ok lower_bound_solver fleet_detected
   \<and> result_status (optimize_schedule lower_bound_solver fleet_detected) = ''optimal''
   \<and> objective_value fleet_model_of delay_priority_9 < objective_value fleet_model_of delay_priority_5
   \<and> \<not> spec_absorbs_all_delay
         (result_solution (optimize_schedule lower_bound_solver fleet_detected)) ''train_2''"
proof -
  have st: "result_status (optimize_schedule lower_bound_solver fleet_detected) = ''optimal''"
    by (simp add: fleet_optimized)
  from fleet_optimum_spares_priority_5 [OF fleet_solver_ok st] fleet_solver_ok st
  show ?thesis by blast
qed

section \<open>Disruptions\<close>

text \<open>
  The loop over the affected ids in closed form: a status kind maps over the trains, a
  cancellation filters them, any other kind leaves them alone.
\<close>

lemma update_as_map:
  assumes "distinct (map fst items)" and "map_of items k = Some t"
  shows "AList.update k (f t) items
         = map (\<lambda>item. if fst item = k then (fst item, f (snd item)) else item) items"
  using assms
proof (induction items)
  case Nil
  then show ?case by simp
next
  case (Cons item rest)
  show ?case
  proof (cases "fst item = k")
    case True
    then have t: "snd item = t" using Cons.prems(2) by (cases item) simp
    have "k \<notin> fst ` set rest" using Cons.prems(1) True by auto
    then have "map (\<lambda>item. if fst item = k then (fst item, f (snd item)) else item) rest = rest"
      by (intro map_idI) auto
    with True t show ?thesis by (cases item) simp
  next
    case False
    then have "map_of rest k = Some t" using Cons.prems(2) by (cases item) (simp split: if_splits)
    with Cons.IH Cons.prems(1) False show ?thesis by (cases item) simp
  qed
qed

lemma map_absent_key:
  assumes "map_of items k = None"
  shows "map (\<lambda>item. if fst item = k then (fst item, f (snd item)) else item) items = items"
proof -
  have "k \<notin> fst ` set items" using assms by (simp add: map_of_eq_None_iff)
  then show ?thesis by (intro map_idI) auto
qed

lemma disrupt_train_status:
  assumes "distinct (map fst items)"
  shows "disrupt_train ''delay'' k items = map (mark_status ''delayed'' [k]) items"
    and "disrupt_train ''maintenance'' k items = map (mark_status ''maintenance'' [k]) items"
proof -
  have m: "mark_status s [k] = (\<lambda>item. if fst item = k then (fst item, (snd item)\<lparr>status := s\<rparr>) else item)"
    for s by (rule ext) (simp add: mark_status_def)
  show "disrupt_train ''delay'' k items = map (mark_status ''delayed'' [k]) items"
  proof (cases "map_of items k")
    case None
    then show ?thesis
      using map_absent_key [OF None, of "\<lambda>t. t\<lparr>status := ''delayed''\<rparr>"]
      by (simp add: disrupt_train_def m)
  next
    case (Some t)
    then show ?thesis
      using update_as_map [OF assms Some, of "\<lambda>t. t\<lparr>status := ''delayed''\<rparr>"]
      by (simp add: disrupt_train_def m)
  qed
  show "disrupt_train ''maintenance'' k items = map (mark_status ''maintenance'' [k]) items"
  proof (cases "map_of items k")
    case None
    then show ?thesis
      using map_absent_key [OF None, of "\<lambda>t. t\<lparr>status := ''maintenance''\<rparr>"]
      by (simp add: disrupt_train_def m)
  next
    case (Some t)
    then show ?thesis
      using update_as_map [OF assms Some, of "\<lambda>t. t\<lparr>status := ''maintenance''\<rparr>"]
      by (simp add: disrupt_train_def m)
  qed
qed

lemma mark_status_keys: "map fst (map (mark_status s ids) items) = map fst items"
  by (induction items) (simp_all add: mark_status_def)

lemma mark_status_compose:
  "map (mark_status s ids) (map (mark_status s [k]) items) = map (mark_status s (k # ids)) items"
  by (induction items) (auto simp: mark_status_def)

lemma apply_disruption_delay:
  assumes "distinct (map fst items)"
  shows "apply_disruption ''delay'' ids items = map (mark_status ''delayed'' ids) items"
  using assms
proof (induction ids arbitrary: items)
  case Nil
  show ?case by (simp add: mark_status_def)
next
  case (Cons k rest)
  have d: "distinct (map fst (map (mark_status ''delayed'' [k]) items))"
    using Cons.prems by (simp only: mark_status_keys)
  have "apply_disruption ''delay'' (k # rest) items
        = apply_disruption ''delay'' rest (map (mark_status ''delayed'' [k]) items)"
    by (simp add: disrupt_train_status(1) [OF Cons.prems])
  also have "\<dots> = map (mark_status ''delayed'' rest) (map (mark_status ''delayed'' [k]) items)"
    by (rule Cons.IH [OF d])
  finally show ?case by (simp only: mark_status_compose)
qed

lemma apply_disruption_maintenance:
  assumes "distinct (map fst items)"
  shows "apply_disruption ''maintenance'' ids items = map (mark_status ''maintenance'' ids) items"
  using assms
proof (induction ids arbitrary: items)
  case Nil
  show ?case by (simp add: mark_status_def)
next
  case (Cons k rest)
  have d: "distinct (map fst (map (mark_status ''maintenance'' [k]) items))"
    using Cons.prems by (simp only: mark_status_keys)
  have "apply_disruption ''maintenance'' (k # rest) items
        = apply_disruption ''maintenance'' rest (map (mark_status ''maintenance'' [k]) items)"
    by (simp add: disrupt_train_status(2) [OF Cons.prems])
  also have "\<dots> = map (mark_status ''maintenance'' rest) (map (mark_status ''maintenance'' [k]) items)"
    by (rule Cons.IH [OF d])
  finally show ?case by (simp only: mark_status_compose)
qed

lemma disrupt_train_cancellation:
  "disrupt_train ''cancellation'' k items = filter (\<lambda>item. fst item \<noteq> k) items"
proof (cases "map_of items k")
  case None
  then have "k \<notin> fst ` set items" by (simp add: map_of_eq_None_iff)
  then have "filter (\<lambda>item. fst item \<noteq> k) items = items" by (intro filter_True) auto
  with None show ?thesis by (simp add: disrupt_train_def)
next
  case (Some t)
  have "AList.delete k items = filter (\<lambda>item. fst item \<noteq> k) items"
    by (induction items) (auto simp: AList.delete_eq)
  with Some show ?thesis by (simp add: disrupt_train_def)
qed

lemma apply_disruption_cancellation:
  "apply_disruption ''cancellation'' ids items = filter (\<lambda>item. fst item \<notin> set ids) items"
proof (induction ids arbitrary: items)
  case Nil
  show ?case by simp
next
  case (Cons k rest)
  have "apply_disruption ''cancellation'' (k # rest) items
        = filter (\<lambda>item. fst item \<notin> set rest) (filter (\<lambda>item. fst item \<noteq> k) items)"
    by (simp add: disrupt_train_cancellation Cons.IH)
  also have "\<dots> = filter (\<lambda>item. fst item \<notin> set (k # rest)) items"
    by (simp add: conj_commute)
  finally show ?case .
qed

lemma apply_disruption_unknown:
  assumes "kind \<noteq> ''delay''" and "kind \<noteq> ''cancellation''" and "kind \<noteq> ''maintenance''"
  shows "apply_disruption kind ids items = items"
proof (induction ids)
  case Nil
  show ?case by simp
next
  case (Cons k rest)
  have "disrupt_train kind k items = items"
    using assms by (simp add: disrupt_train_def split: option.splits)
  with Cons.IH show ?case by simp
qed

lemma disrupt_train_keys: "fst ` set (disrupt_train kind k items) \<subseteq> fst ` set items"
proof (cases "map_of items k")
  case None
  then show ?thesis by (simp add: disrupt_train_def)
next
  case (Some t)
  then have "k \<in> fst ` set items" by (metis map_of_eq_None_iff option.distinct(1))
  then have "fst ` set (AList.update k v items) \<subseteq> fst ` set items" for v
    by (simp only: AList.dom_update) auto
  moreover have "fst ` set (AList.delete k items) \<subseteq> fst ` set items"
    by (auto simp: AList.delete_eq)
  ultimately show ?thesis using Some by (simp add: disrupt_train_def)
qed

lemma disrupt_train_absent:
  assumes "k \<notin> fst ` set items"
  shows "disrupt_train kind k items = items"
proof -
  have "map_of items k = None" using assms by (simp add: map_of_eq_None_iff)
  then show ?thesis by (simp add: disrupt_train_def)
qed

lemma apply_disruption_skips_absent:
  assumes "k \<notin> fst ` set items"
  shows "apply_disruption kind ids items = apply_disruption kind (removeAll k ids) items"
  using assms
proof (induction ids arbitrary: items)
  case Nil
  show ?case by simp
next
  case (Cons a rest)
  show ?case
  proof (cases "a = k")
    case True
    with Cons show ?thesis by (simp add: disrupt_train_absent)
  next
    case False
    have "k \<notin> fst ` set (disrupt_train kind a items)"
      using Cons.prems disrupt_train_keys [of kind a items] by blast
    from Cons.IH [OF this] False show ?thesis by simp
  qed
qed

lemma apply_disruption_keys: "fst ` set (apply_disruption kind ids items) \<subseteq> fst ` set items"
proof (induction ids arbitrary: items)
  case Nil
  show ?case by simp
next
  case (Cons a rest)
  from Cons.IH [of "disrupt_train kind a items"] disrupt_train_keys [of kind a items]
  show ?case by auto
qed

lemma apply_disruption_cases:
  assumes "distinct (map fst items)"
  shows "apply_disruption kind ids items = map (mark_status ''delayed'' ids) items
       \<or> apply_disruption kind ids items = map (mark_status ''maintenance'' ids) items
       \<or> apply_disruption kind ids items = filter (\<lambda>item. fst item \<notin> set ids) items
       \<or> apply_disruption kind ids items = items"
  using apply_disruption_delay [OF assms] apply_disruption_maintenance [OF assms]
    apply_disruption_cancellation apply_disruption_unknown
  by metis

lemma mark_status_wf:
  assumes "engine_wf e"
  shows "engine_wf (e\<lparr>trains := map (mark_status s ids) (trains e)\<rparr>)"
proof -
  have "list_all (\<lambda>item. fst item = id_train (snd item)) (map (mark_status s ids) items)"
    if "list_all (\<lambda>item. fst item = id_train (snd item)) items" for items
    using that by (induction items) (simp_all add: mark_status_def)
  moreover have "distinct (map fst (map (mark_status s ids) (trains e)))"
    using assms by (simp only: mark_status_keys engine_wf_def)
  ultimately show ?thesis using assms by (simp add: engine_wf_def del: map_map)
qed

lemma mark_status_speeds:
  assumes "speeds_nonzero e"
  shows "speeds_nonzero (e\<lparr>trains := map (mark_status s ids) (trains e)\<rparr>)"
proof -
  have "list_all (\<lambda>item. speed (snd item) \<noteq> 0) (map (mark_status s ids) items)"
    if "list_all (\<lambda>item. speed (snd item) \<noteq> 0) items" for items
    using that by (induction items) (simp_all add: mark_status_def)
  with assms show ?thesis by (simp add: speeds_nonzero_def)
qed

lemma filter_wf:
  assumes "engine_wf e"
  shows "engine_wf (e\<lparr>trains := filter P (trains e)\<rparr>)"
  using assms by (simp add: engine_wf_def distinct_map_filter list_all_iff)

lemma filter_speeds:
  assumes "speeds_nonzero e"
  shows "speeds_nonzero (e\<lparr>trains := filter P (trains e)\<rparr>)"
  using assms by (simp add: speeds_nonzero_def list_all_iff)

lemma apply_disruption_wf:
  assumes "engine_wf e" and "speeds_nonzero e"
  shows "engine_wf (e\<lparr>trains := apply_disruption kind ids (trains e)\<rparr>)"
    and "speeds_nonzero (e\<lparr>trains := apply_disruption kind ids (trains e)\<rparr>)"
proof -
  have d: "distinct (map fst (trains e))" using assms(1) by (simp add: engine_wf_def)
  have same: "e\<lparr>trains := trains e\<rparr> = e" by simp
  from apply_disruption_cases [OF d, of kind ids]
  show "engine_wf (e\<lparr>trains := apply_disruption kind ids (trains e)\<rparr>)"
    using mark_status_wf [OF assms(1)] filter_wf [OF assms(1)] assms(1) same
    by (elim disjE) simp_all
  from apply_disruption_cases [OF d, of kind ids]
  show "speeds_nonzero (e\<lparr>trains := apply_disruption kind ids (trains e)\<rparr>)"
    using mark_status_speeds [OF assms(2)] filter_speeds [OF assms(2)] assms(2) same
    by (elim disjE) simp_all
qed

lemma detected_ids:
  assumes wf: "engine_wf e"
    and c: "c \<in> set (concat (map (\<lambda>item1. concat (map (pair_found item1) (trains e))) (trains e)))"
  shows "train1_id c \<in> fst ` set (trains e) \<and> train2_id c \<in> fst ` set (trains e)"
proof -
  from c obtain item1 item2 where
    h: "item1 \<in> set (trains e)" "item2 \<in> set (trains e)" "c \<in> set (pair_found item1 item2)"
    by auto
  have "fst item1 = id_train (snd item1)" "fst item2 = id_train (snd item2)"
    using wf h(1,2) by (simp_all add: engine_wf_def list_all_iff)
  with pair_found_ids [OF h(3)] have "train1_id c = fst item1" "train2_id c = fst item2"
    by simp_all
  with h(1,2) show ?thesis by (simp add: image_iff) blast
qed

lemma detect_conflicts_idempotent:
  assumes "detect_conflicts e = Inr (cs, e')"
  shows "detect_conflicts e' = Inr (cs, e')"
  using assms by (auto simp: detect_conflicts_def split: sum.splits)

lemma reoptimize_reruns:
  assumes wf: "engine_wf e" and sp: "speeds_nonzero e"
  shows "\<exists>cs. trains (snd (reoptimize_on_disruption Solve kind ids e))
                 = apply_disruption kind ids (trains e)
           \<and> detect_conflicts (e\<lparr>trains := apply_disruption kind ids (trains e)\<rparr>)
               = Inr (cs, snd (reoptimize_on_disruption Solve kind ids e))
           \<and> conflicts (snd (reoptimize_on_disruption Solve kind ids e)) = cs
           \<and> list_all (\<lambda>c. train1_id c \<in> fst ` set (apply_disruption kind ids (trains e))
                          \<and> train2_id c \<in> fst ` set (apply_disruption kind ids (trains e))) cs
           \<and> fst (reoptimize_on_disruption Solve kind ids e)
               = Inr (optimize_schedule Solve (snd (reoptimize_on_disruption Solve kind ids e)))"
proof -
  let ?e1 = "e\<lparr>trains := apply_disruption kind ids (trains e)\<rparr>"
  let ?cs = "concat (map (\<lambda>item1. concat (map (pair_found item1) (trains ?e1))) (trains ?e1))"
  have det: "detect_conflicts ?e1 = Inr (?cs, ?e1\<lparr>conflicts := ?cs\<rparr>)"
    by (rule detect_conflicts_returns [OF apply_disruption_wf(2) [OF wf sp]])
  have r: "reoptimize_on_disruption Solve kind ids e
           = (Inr (optimize_schedule Solve (?e1\<lparr>conflicts := ?cs\<rparr>)), ?e1\<lparr>conflicts := ?cs\<rparr>)"
    unfolding reoptimize_on_disruption_def Let_def det by simp
  have "train1_id c \<in> fst ` set (trains ?e1) \<and> train2_id c \<in> fst ` set (trains ?e1)"
    if "c \<in> set ?cs" for c
    by (rule detected_ids [OF apply_disruption_wf(1) [OF wf sp] that])
  then have ids: "list_all (\<lambda>c. train1_id c \<in> fst ` set (apply_disruption kind ids (trains e))
                          \<and> train2_id c \<in> fst ` set (apply_disruption kind ids (trains e))) ?cs"
    unfolding list_all_iff by simp
  show ?thesis
    unfolding r using det ids by (intro exI [of _ ?cs]) simp
qed

lemma fleet_detected_speeds: "speeds_nonzero fleet_detected"
  using fleet_wf(2) by (simp add: speeds_nonzero_def fleet_detected_trains)

text \<open>
  Claim C7. On an engine whose keys are the train ids and whose speeds are nonzero,
  \<open>reoptimize_on_disruption\<close> sets the status of every affected train that is present to
  "delayed" (kind "delay") or "maintenance" (kind "maintenance") and leaves the others as
  they are, or removes the affected trains (kind "cancellation"). It then stores the
  conflicts detected on the resulting trains and returns the optimization of that state.
  After a cancellation \<open>total_trains\<close> counts only the remaining trains, and no conflict,
  stored or detected again, names a removed train.
\<close>

theorem reoptimize_on_disruption_marks:
  assumes wf: "engine_wf e" and sp: "speeds_nonzero e"
  shows "(kind = ''delay'' \<longrightarrow>
            trains (snd (reoptimize_on_disruption Solve kind affected e))
              = map (mark_status ''delayed'' affected) (trains e))
       \<and> (kind = ''maintenance'' \<longrightarrow>
            trains (snd (reoptimize_on_disruption Solve kind affected e))
              = map (mark_status ''maintenance'' affected) (trains e))
       \<and> (kind = ''cancellation'' \<longrightarrow>
            trains (snd (reoptimize_on_disruption Solve kind affected e))
              = filter (\<lambda>item. fst item \<notin> set affected) (trains e)
            \<and> total_trains (get_throughput_metrics now (snd (reoptimize_on_disruption Solve kind affected e)))
              = length (filter (\<lambda>item. fst item \<notin> set affected) (trains e))
            \<and> list_all (\<lambda>c. \<not> named_in affected c)
                 (conflicts (snd (reoptimize_on_disruption Solve kind affected e)))
            \<and> (\<exists>cs. detect_conflicts (snd (reoptimize_on_disruption Solve kind affected e))
                       = Inr (cs, snd (reoptimize_on_disruption Solve kind affected e))
                  \<and> list_all (\<lambda>c. \<not> named_in affected c) cs))
       \<and> (\<exists>cs. detect_conflicts
                  (e\<lparr>trains := trains (snd (reoptimize_on_disruption Solve kind affected e))\<rparr>)
                 = Inr (cs, snd (reoptimize_on_disruption Solve kind affected e)))
       \<and> fst (reoptimize_on_disruption Solve kind affected e)
           = Inr (optimize_schedule Solve (snd (reoptimize_on_disruption Solve kind affected e)))"
proof -
  let ?r = "reoptimize_on_disruption Solve kind affected e"
  have d: "distinct (map fst (trains e))" using wf by (simp add: engine_wf_def)
  from reoptimize_reruns [OF wf sp, of Solve kind affected] obtain cs where
    t: "trains (snd ?r) = apply_disruption kind affected (trains e)"
    and det: "detect_conflicts (e\<lparr>trains := apply_disruption kind affected (trains e)\<rparr>)
               = Inr (cs, snd ?r)"
    and cs: "conflicts (snd ?r) = cs"
    and ids: "list_all (\<lambda>c. train1_id c \<in> fst ` set (apply_disruption kind affected (trains e))
                          \<and> train2_id c \<in> fst ` set (apply_disruption kind affected (trains e))) cs"
    and res: "fst ?r = Inr (optimize_schedule Solve (snd ?r))"
    by blast
  have delay: "trains (snd ?r) = map (mark_status ''delayed'' affected) (trains e)"
    if "kind = ''delay''"
    using t that by (simp add: apply_disruption_delay [OF d])
  have maint: "trains (snd ?r) = map (mark_status ''maintenance'' affected) (trains e)"
    if "kind = ''maintenance''"
    using t that by (simp add: apply_disruption_maintenance [OF d])
  have cancel: "trains (snd ?r) = filter (\<lambda>item. fst item \<notin> set affected) (trains e)
            \<and> total_trains (get_throughput_metrics now (snd ?r))
              = length (filter (\<lambda>item. fst item \<notin> set affected) (trains e))
            \<and> list_all (\<lambda>c. \<not> named_in affected c) (conflicts (snd ?r))
            \<and> (\<exists>cs. detect_conflicts (snd ?r) = Inr (cs, snd ?r)
                  \<and> list_all (\<lambda>c. \<not> named_in affected c) cs)"
    if k: "kind = ''cancellation''"
  proof -
    have t': "trains (snd ?r) = filter (\<lambda>item. fst item \<notin> set affected) (trains e)"
      using t k by (simp add: apply_disruption_cancellation)
    have total: "total_trains (get_throughput_metrics now (snd ?r))
              = length (filter (\<lambda>item. fst item \<notin> set affected) (trains e))"
      by (simp add: get_throughput_metrics_def Let_def t')
    have "\<not> named_in affected c" if "c \<in> set cs" for c
    proof -
      from ids that have
        "train1_id c \<in> fst ` set (apply_disruption kind affected (trains e))"
        "train2_id c \<in> fst ` set (apply_disruption kind affected (trains e))"
        by (simp_all add: list_all_iff)
      then show ?thesis
        unfolding k apply_disruption_cancellation by (auto simp: named_in_def)
    qed
    then have none: "list_all (\<lambda>c. \<not> named_in affected c) cs" by (simp add: list_all_iff)
    from detect_conflicts_idempotent [OF det] none t' total cs show ?thesis by blast
  qed
  have "\<exists>cs. detect_conflicts (e\<lparr>trains := trains (snd ?r)\<rparr>) = Inr (cs, snd ?r)"
    using det t by auto
  with delay maint cancel res show ?thesis by blast
qed

theorem reoptimize_on_disruption_marks_witness:
  "engine_wf fleet_detected \<and> speeds_nonzero fleet_detected
   \<and> map fst (trains (snd (reoptimize_on_disruption lower_bound_solver ''cancellation''
                 [''train_2''] fleet_detected)))
       = [''train_1'', ''train_3'', ''train_4'', ''train_5'']
   \<and> total_trains (get_throughput_metrics 40000
         (snd (reoptimize_on_disruption lower_bound_solver ''cancellation'' [''train_2''] fleet_detected)))
       = 4
   \<and> list_all (\<lambda>c. \<not> named_in [''train_2''] c)
        (conflicts (snd (reoptimize_on_disruption lower_bound_solver ''cancellation''
                 [''train_2''] fleet_detected)))
   \<and> map (\<lambda>item. status (snd item))
        (trains (snd (reoptimize_on_disruption lower_bound_solver ''delay''
                 [''train_2'', ''train_9''] fleet_detected)))
       = [''running'', ''delayed'', ''running'', ''running'', ''running'']
   \<and> map (\<lambda>item. status (snd item))
        (trains (snd (reoptimize_on_disruption lower_bound_solver ''maintenance''
                 [''train_4''] fleet_detected)))
       = [''running'', ''running'', ''running'', ''maintenance'', ''running'']"
proof -
  from reoptimize_on_disruption_marks [OF fleet_detected_ok(1) fleet_detected_speeds,
      of "''delay''" lower_bound_solver "[''train_2'', ''train_9'']" 40000]
  have "trains (snd (reoptimize_on_disruption lower_bound_solver ''delay''
                 [''train_2'', ''train_9''] fleet_detected))
        = map (mark_status ''delayed'' [''train_2'', ''train_9'']) (trains fleet_detected)"
    by blast
  then have delayed: "map (\<lambda>item. status (snd item))
        (trains (snd (reoptimize_on_disruption lower_bound_solver ''delay''
                 [''train_2'', ''train_9''] fleet_detected)))
       = [''running'', ''delayed'', ''running'', ''running'', ''running'']"
    by (simp add: fleet_detected_trains fleet_trains fleet_def fleet_train_def mark_status_def)
  from reoptimize_on_disruption_marks [OF fleet_detected_ok(1) fleet_detected_speeds,
      of "''maintenance''" lower_bound_solver "[''train_4'']" 40000]
  have "trains (snd (reoptimize_on_disruption lower_bound_solver ''maintenance''
                 [''train_4''] fleet_detected))
        = map (mark_status ''maintenance'' [''train_4'']) (trains fleet_detected)"
    by blast
  then have maintained: "map (\<lambda>item. status (snd item))
        (trains (snd (reoptimize_on_disruption lower_bound_solver ''maintenance''
                 [''train_4''] fleet_detected)))
       = [''running'', ''running'', ''running'', ''maintenance'', ''running'']"
    by (simp add: fleet_detected_trains fleet_trains fleet_def fleet_train_def mark_status_def)
  have f: "filter (\<lambda>item. fst item \<notin> set [''train_2'']) (trains fleet_detected)
           = [(''train_1'', fleet_train ''train_1'' 8 ''Pune'' ''Nagpur'' 36000 72000),
              (''train_3'', fleet_train ''train_3'' 6 ''Vadodara'' ''Ahmedabad'' 36000 43200),
              (''train_4'', fleet_train ''train_4'' 9 ''Mumbai Central'' ''New Delhi'' 36000 93600),
              (''train_5'', fleet_train ''train_5'' 10 ''Bhopal'' ''Chennai'' 36000 108000)]"
    by (simp add: fleet_detected_trains fleet_trains fleet_def fleet_train_def)
  from reoptimize_on_disruption_marks [OF fleet_detected_ok(1) fleet_detected_speeds,
      of "''cancellation''" lower_bound_solver "[''train_2'']" 40000]
  have "trains (snd (reoptimize_on_disruption lower_bound_solver ''cancellation'' [''train_2''] fleet_detected))
          = filter (\<lambda>item. fst item \<notin> set [''train_2'']) (trains fleet_detected)"
    and "total_trains (get_throughput_metrics 40000
           (snd (reoptimize_on_disruption lower_bound_solver ''cancellation'' [''train_2''] fleet_detected)))
          = length (filter (\<lambda>item. fst item \<notin> set [''train_2'']) (trains fleet_detected))"
    and "list_all (\<lambda>c. \<not> named_in [''train_2''] c)
          (conflicts (snd (reoptimize_on_disruption lower_bound_solver ''cancellation''
                 [''train_2''] fleet_detected)))"
    by blast+
  then have "map fst (trains (snd (reoptimize_on_disruption lower_bound_solver ''cancellation''
                 [''train_2''] fleet_detected)))
       = [''train_1'', ''train_3'', ''train_4'', ''train_5'']
   \<and> total_trains (get_throughput_metrics 40000
         (snd (reoptimize_on_disruption lower_bound_solver ''cancellation'' [''train_2''] fleet_detected)))
       = 4
   \<and> list_all (\<lambda>c. \<not> named_in [''train_2''] c)
        (conflicts (snd (reoptimize_on_disruption lower_bound_solver ''cancellation''
                 [''train_2''] fleet_detected)))"
    by (simp only: f) simp
  with delayed maintained fleet_detected_ok(1) fleet_detected_speeds show ?thesis by blast
qed

text \<open>
  Claim C10. An affected id that is not a key of the train collection is passed over: the
  call does what it does without that id in the list, and the id is still absent afterwards.
  A disruption type other than the three known ones changes no train. In both cases, on an
  engine whose keys are the train ids and whose speeds are nonzero, nothing is raised:
  the conflicts are detected again on the trains and the optimization of that state is
  returned.
\<close>

theorem reoptimize_on_disruption_skips:
  assumes wf: "engine_wf e" and sp: "speeds_nonzero e"
  shows "(k \<notin> fst ` set (trains e) \<longrightarrow>
            reoptimize_on_disruption Solve kind affected e
              = reoptimize_on_disruption Solve kind (removeAll k affected) e
            \<and> k \<notin> fst ` set (trains (snd (reoptimize_on_disruption Solve kind affected e))))
       \<and> (kind \<noteq> ''delay'' \<and> kind \<noteq> ''cancellation'' \<and> kind \<noteq> ''maintenance'' \<longrightarrow>
            trains (snd (reoptimize_on_disruption Solve kind affected e)) = trains e)
       \<and> (\<exists>cs. detect_conflicts
                  (e\<lparr>trains := trains (snd (reoptimize_on_disruption Solve kind affected e))\<rparr>)
                 = Inr (cs, snd (reoptimize_on_disruption Solve kind affected e)))
       \<and> fst (reoptimize_on_disruption Solve kind affected e)
           = Inr (optimize_schedule Solve (snd (reoptimize_on_disruption Solve kind affected e)))"
proof -
  let ?r = "reoptimize_on_disruption Solve kind affected e"
  from reoptimize_reruns [OF wf sp, of Solve kind affected] obtain cs where
    t: "trains (snd ?r) = apply_disruption kind affected (trains e)"
    and det: "detect_conflicts (e\<lparr>trains := apply_disruption kind affected (trains e)\<rparr>)
               = Inr (cs, snd ?r)"
    and res: "fst ?r = Inr (optimize_schedule Solve (snd ?r))"
    by blast
  have absent: "?r = reoptimize_on_disruption Solve kind (removeAll k affected) e
            \<and> k \<notin> fst ` set (trains (snd ?r))"
    if k: "k \<notin> fst ` set (trains e)"
  proof -
    have "?r = reoptimize_on_disruption Solve kind (removeAll k affected) e"
      unfolding reoptimize_on_disruption_def
      by (simp only: apply_disruption_skips_absent [OF k, of kind affected])
    moreover have "k \<notin> fst ` set (trains (snd ?r))"
      using k apply_disruption_keys [of kind affected "trains e"] unfolding t by blast
    ultimately show ?thesis by simp
  qed
  have unknown: "trains (snd ?r) = trains e"
    if "kind \<noteq> ''delay'' \<and> kind \<noteq> ''cancellation'' \<and> kind \<noteq> ''maintenance''"
    using that t by (simp add: apply_disruption_unknown)
  have "\<exists>cs. detect_conflicts (e\<lparr>trains := trains (snd ?r)\<rparr>) = Inr (cs, snd ?r)"
    using det t by auto
  with absent unknown res show ?thesis by blast
qed

theorem reoptimize_on_disruption_skips_witness:
  "engine_wf fleet_detected \<and> speeds_nonzero fleet_detected
   \<and> ''train_9'' \<notin> fst ` set (trains fleet_detected)
   \<and> reoptimize_on_disruption lower_bound_solver ''strike'' [''train_9'', ''train_2''] fleet_detected
       = reoptimize_on_disruption lower_bound_solver ''strike'' [''train_2''] fleet_detected
   \<and> trains (snd (reoptimize_on_disruption lower_bound_solver ''strike'' [''train_9'', ''train_2'']
                 fleet_detected)) = trains fleet_detected
   \<and> fst (reoptimize_on_disruption lower_bound_solver ''strike'' [''train_9'', ''train_2''] fleet_detected)
       = Inr (optimize_schedule lower_bound_solver
               (snd (reoptimize_on_disruption lower_bound_solver ''strike'' [''train_9'', ''train_2'']
                 fleet_detected)))"
proof -
  have k: "''train_9'' \<notin> fst ` set (trains fleet_detected)"
    by (simp add: fleet_detected_trains fleet_trains fleet_def fleet_train_def)
  have kind: "''strike'' \<noteq> ''delay'' \<and> ''strike'' \<noteq> ''cancellation'' \<and> ''strike'' \<noteq> ''maintenance''"
    by simp
  have rm: "removeAll ''train_9'' [''train_9'', ''train_2''] = [''train_2'']" by simp
  from reoptimize_on_disruption_skips [OF fleet_detected_ok(1) fleet_detected_speeds,
      of "''train_9''" lower_bound_solver "''strike''" "[''train_9'', ''train_2'']"] k kind
  show ?thesis using fleet_detected_ok(1) fleet_detected_speeds unfolding rm by blast
qed

text \<open>
  Claim C8. In every engine state \<open>throughput_efficiency\<close> is the same number as
  \<open>punctuality_percentage\<close>: the count of running trains over the count of all trains
  (over 1 when there is none), times 100.
\<close>

theorem throughput_efficiency_is_punctuality:
  "throughput_efficiency (get_throughput_metrics now e)
     = punctuality_percentage (get_throughput_metrics now e)
   \<and> punctuality_percentage (get_throughput_metrics now e)
     = of_nat (running_trains (get_throughput_metrics now e))
         / of_nat (max 1 (total_trains (get_throughput_metrics now e))) * 100
   \<and> running_trains (get_throughput_metrics now e) = count_status ''running'' (trains e)
   \<and> total_trains (get_throughput_metrics now e) = length (trains e)
   \<and> (trains e \<noteq> [] \<longrightarrow>
        punctuality_percentage (get_throughput_metrics now e)
          = of_nat (running_trains (get_throughput_metrics now e))
              / of_nat (total_trains (get_throughput_metrics now e)) * 100)"
proof -
  have "max 1 (length (trains e)) = length (trains e)" if "trains e \<noteq> []"
    using that by (cases "trains e") simp_all
  then show ?thesis by (simp add: get_throughput_metrics_def Let_def)
qed

theorem throughput_efficiency_is_punctuality_witness:
  "trains fleet_delayed \<noteq> []
   \<and> running_trains (get_throughput_metrics 40000 fleet_delayed) = 4
   \<and> total_trains (get_throughput_metrics 40000 fleet_delayed) = 5
   \<and> punctuality_percentage (get_throughput_metrics 40000 fleet_delayed) = 80
   \<and> throughput_efficiency (get_throughput_metrics 40000 fleet_delayed) = 80"
proof -
  have t: "map (\<lambda>item. status (snd item)) (trains fleet_delayed)
           = [''running'', ''delayed'', ''running'', ''running'', ''running'']"
    by (simp add: fleet_delayed_def fleet_detected_trains fleet_trains fleet_def fleet_train_def
        mark_status_def)
  have ne: "trains fleet_delayed \<noteq> []" using t by auto
  have len: "length (trains fleet_delayed) = 5"
    using arg_cong [OF t, of length] by simp
  have "count_status ''running'' (trains fleet_delayed)
        = length (filter (\<lambda>s. s = ''running'') (map (\<lambda>item. status (snd item)) (trains fleet_delayed)))"
    by (simp add: count_status_def filter_map comp_def)
  then have run: "count_status ''running'' (trains fleet_delayed) = 4"
    by (simp only: t) simp
  from throughput_efficiency_is_punctuality [of 40000 fleet_delayed] ne
  have "throughput_efficiency (get_throughput_metrics 40000 fleet_delayed)
          = punctuality_percentage (get_throughput_metrics 40000 fleet_delayed)"
    and "punctuality_percentage (get_throughput_metrics 40000 fleet_delayed)
          = of_nat (running_trains (get_throughput_metrics 40000 fleet_delayed))
              / of_nat (total_trains (get_throughput_metrics 40000 fleet_delayed)) * 100"
    and "running_trains (get_throughput_metrics 40000 fleet_delayed)
          = count_status ''running'' (trains fleet_delayed)"
    and "total_trains (get_throughput_metrics 40000 fleet_delayed) = length (trains fleet_delayed)"
    by blast+
  then show ?thesis using ne by (simp add: run len)
qed

section \<open>Validation at the train endpoints\<close>









end
